theory Spec2Isabelle
  imports Complex_Main "HOL-Library.Log_Nat" "HOL-Library.Sublist"
begin

section \<open>The office supply ledger of \<^verbatim>\<open>office_supply_agent.py\<close>\<close>

text \<open>
  The module keeps two global dictionaries, \<^verbatim>\<open>INVENTORY\<close> and \<^verbatim>\<open>COMPANY_BUDGET\<close>,
  and seven tool functions that read or mutate them. The globals become one record
  that every tool takes and, when it mutates, returns updated.
\<close>

subsection \<open>Python floats\<close>

text \<open>
  Prices and budgets are Python floats: IEEE 754 binary64 values with round to nearest,
  ties to even. A float is a finite value, an infinity or NaN. The finite values are the
  rationals \<open>m * 2 ^ e\<close> with \<open>\<bar>m\<bar> < 2 ^ 53\<close> and \<open>- 1074 \<le> e \<le> 971\<close>; the two
  zeros are not told apart (they compare equal and differ only in the sign that is
  printed).

  \<open>round_half_even\<close> rounds a rational to the nearest integer, a tie to the even one.
  \<open>ilog2 x\<close> is the exponent \<open>k\<close> with \<open>2 ^ k \<le> x < 2 ^ (k + 1)\<close> of a positive \<open>x\<close>.
  \<open>ulp_exp x\<close> is the exponent of the spacing of the floats around \<open>x\<close>: 52 below
  \<open>ilog2\<close>, and \<open>- 1074\<close> in the subnormal range. \<open>nearest x\<close> is the multiple of that
  spacing nearest to \<open>x\<close>, and \<open>rnd x\<close> is the float it denotes: an infinity once the
  magnitude reaches \<open>float_overflow\<close>.
\<close>

datatype double = Finite rat | PInf | MInf | NaN

definition round_half_even :: "rat \<Rightarrow> int" where
  "round_half_even x =
     (let f = \<lfloor>x\<rfloor>; d = x - of_int f
      in if d < 1 / 2 then f else if 1 / 2 < d then f + 1 else if even f then f else f + 1)"

definition ilog2 :: "rat \<Rightarrow> int" where
  "ilog2 x =
     (let (p, q) = quotient_of x; d = bitlen p - bitlen q
      in if 2 powi d \<le> x then d else d - 1)"

definition ulp_exp :: "rat \<Rightarrow> int" where
  "ulp_exp x = max (ilog2 \<bar>x\<bar> - 52) (- 1074)"

definition nearest :: "rat \<Rightarrow> rat" where
  "nearest x =
     (if x = 0 then 0
      else sgn x * (of_int (round_half_even (\<bar>x\<bar> / 2 powi ulp_exp x)) * 2 powi ulp_exp x))"

definition float_overflow :: rat where
  "float_overflow = 2 ^ 1024"

definition rnd :: "rat \<Rightarrow> double" where
  "rnd x =
     (let y = nearest x
      in if float_overflow \<le> y then PInf
         else if y \<le> - float_overflow then MInf else Finite y)"

text \<open>
  The comparisons \<^verbatim>\<open>a <= b\<close> and \<^verbatim>\<open>a < b\<close>: every comparison with NaN is false.
  \<^verbatim>\<open>a >= b\<close> is \<open>fle b a\<close>.
\<close>

fun fle :: "double \<Rightarrow> double \<Rightarrow> bool" where
  "fle (Finite x) (Finite y) = (x \<le> y)"
| "fle (Finite x) PInf = True"
| "fle MInf (Finite y) = True"
| "fle MInf MInf = True"
| "fle MInf PInf = True"
| "fle PInf PInf = True"
| "fle a b = False"

fun flt :: "double \<Rightarrow> double \<Rightarrow> bool" where
  "flt (Finite x) (Finite y) = (x < y)"
| "flt (Finite x) PInf = True"
| "flt MInf (Finite y) = True"
| "flt MInf PInf = True"
| "flt a b = False"

text \<open>
  The arithmetic \<^verbatim>\<open>a + b\<close>, \<^verbatim>\<open>a - b\<close>, \<^verbatim>\<open>a * b\<close> and \<^verbatim>\<open>a / b\<close> (the last for a
  divisor that is not zero; Python raises on a zero divisor before dividing).
\<close>

fun fadd :: "double \<Rightarrow> double \<Rightarrow> double" where
  "fadd (Finite x) (Finite y) = rnd (x + y)"
| "fadd NaN b = NaN"
| "fadd a NaN = NaN"
| "fadd PInf MInf = NaN"
| "fadd MInf PInf = NaN"
| "fadd PInf b = PInf"
| "fadd a PInf = PInf"
| "fadd MInf b = MInf"
| "fadd a MInf = MInf"

fun fsub :: "double \<Rightarrow> double \<Rightarrow> double" where
  "fsub (Finite x) (Finite y) = rnd (x - y)"
| "fsub NaN b = NaN"
| "fsub a NaN = NaN"
| "fsub PInf PInf = NaN"
| "fsub MInf MInf = NaN"
| "fsub PInf b = PInf"
| "fsub a PInf = MInf"
| "fsub MInf b = MInf"
| "fsub a MInf = PInf"

fun fmul :: "double \<Rightarrow> double \<Rightarrow> double" where
  "fmul (Finite x) (Finite y) = rnd (x * y)"
| "fmul NaN b = NaN"
| "fmul a NaN = NaN"
| "fmul PInf (Finite y) = (if y = 0 then NaN else if 0 < y then PInf else MInf)"
| "fmul MInf (Finite y) = (if y = 0 then NaN else if 0 < y then MInf else PInf)"
| "fmul (Finite x) PInf = (if x = 0 then NaN else if 0 < x then PInf else MInf)"
| "fmul (Finite x) MInf = (if x = 0 then NaN else if 0 < x then MInf else PInf)"
| "fmul PInf PInf = PInf"
| "fmul PInf MInf = MInf"
| "fmul MInf PInf = MInf"
| "fmul MInf MInf = PInf"

fun fdiv :: "double \<Rightarrow> double \<Rightarrow> double" where
  "fdiv (Finite x) (Finite y) = rnd (x / y)"
| "fdiv NaN b = NaN"
| "fdiv a NaN = NaN"
| "fdiv (Finite x) PInf = Finite 0"
| "fdiv (Finite x) MInf = Finite 0"
| "fdiv PInf (Finite y) = (if 0 < y then PInf else MInf)"
| "fdiv MInf (Finite y) = (if 0 < y then MInf else PInf)"
| "fdiv a b = NaN"

text \<open>
  \<^verbatim>\<open>int * float\<close> first converts the int to the nearest float; Python raises
  \<^verbatim>\<open>OverflowError\<close> when the int is too large for one.
\<close>

definition int_to_double :: "int \<Rightarrow> double option" where
  "int_to_double n = (case rnd (of_int n) of Finite y \<Rightarrow> Some (Finite y) | _ \<Rightarrow> None)"

text \<open>A float is representable when rounding leaves it alone.\<close>

fun representable :: "double \<Rightarrow> bool" where
  "representable (Finite x) = (rnd x = Finite x)"
| "representable a = True"

subsection \<open>The globals\<close>

text \<open>
  The keys of a Python dict are pairwise distinct and iterate in insertion order, so
  \<^verbatim>\<open>INVENTORY\<close> is an association list in the order of the source literal. A float
  literal such as \<^verbatim>\<open>12.99\<close> denotes the float nearest to it.
\<close>

record item_info =
  stock :: int
  price :: double

type_synonym inventory = "(string \<times> item_info) list"

record budget =
  remaining :: double
  monthly_limit :: double

record ledger =
  INVENTORY :: inventory
  COMPANY_BUDGET :: budget

definition INVENTORY_seed :: inventory where
  "INVENTORY_seed =
    [(''paper clips'', \<lparr>stock = 500, price = rnd 12.99\<rparr>),
     (''pens'', \<lparr>stock = 200, price = rnd 8.50\<rparr>),
     (''staplers'', \<lparr>stock = 50, price = rnd 24.99\<rparr>),
     (''coffee'', \<lparr>stock = 30, price = rnd 15.99\<rparr>),
     (''desk chairs'', \<lparr>stock = 15, price = rnd 149.99\<rparr>),
     (''standing desks'', \<lparr>stock = 8, price = rnd 299.99\<rparr>),
     (''coffee machine'', \<lparr>stock = 3, price = rnd 799.99\<rparr>),
     (''gaming chair'', \<lparr>stock = 2, price = rnd 1299.99\<rparr>),
     (''executive desk'', \<lparr>stock = 1, price = rnd 2499.99\<rparr>)]"

definition COMPANY_BUDGET_seed :: budget where
  "COMPANY_BUDGET_seed = \<lparr>remaining = rnd 5000.00, monthly_limit = rnd 5000.00\<rparr>"

definition seeded :: ledger where
  "seeded = \<lparr>INVENTORY = INVENTORY_seed, COMPANY_BUDGET = COMPANY_BUDGET_seed\<rparr>"

subsection \<open>Strings\<close>

text \<open>
  A character is a code point from 0 to 255. On these, \<^verbatim>\<open>str.lower\<close> maps 65-90
  (A-Z), 192-214 and 216-222 to the code point 32 above and leaves the rest, and
  \<^verbatim>\<open>str.isspace\<close> holds of 9-13, 28-32, 133 and 160. \<^verbatim>\<open>strip\<close> removes white space at
  both ends. \<^verbatim>\<open>a in b\<close> on two strings holds when \<^verbatim>\<open>a\<close> occurs in \<^verbatim>\<open>b\<close> as a
  contiguous block.
\<close>

definition lower_char :: "char \<Rightarrow> char" where
  "lower_char c =
     (let n = (of_char c :: nat)
      in if (65 \<le> n \<and> n \<le> 90) \<or> (192 \<le> n \<and> n \<le> 214) \<or> (216 \<le> n \<and> n \<le> 222)
         then char_of (n + 32) else c)"

definition str_lower :: "string \<Rightarrow> string" where
  "str_lower s = map lower_char s"

definition isspace :: "char \<Rightarrow> bool" where
  "isspace c =
     (let n = (of_char c :: nat)
      in (9 \<le> n \<and> n \<le> 13) \<or> (28 \<le> n \<and> n \<le> 32) \<or> n = 133 \<or> n = 160)"

definition str_strip :: "string \<Rightarrow> string" where
  "str_strip s = rev (dropWhile isspace (rev (dropWhile isspace s)))"

fun str_in :: "string \<Rightarrow> string \<Rightarrow> bool" where
  "str_in a [] = (a = [])"
| "str_in a (c # cs) = (prefix a (c # cs) \<or> str_in a cs)"

subsection \<open>What a tool returns\<close>

text \<open>
  Every tool returns a formatted string. Each \<^verbatim>\<open>return\<close> statement of the source is one
  constructor here, carrying the values the f-string interpolates, in the order they
  appear in it (the item name is carried as passed; \<^verbatim>\<open>title()\<close> and the number
  formats are presentation). Two calls raise instead of returning: \<^verbatim>\<open>get_budget\<close>
  divides by the monthly limit (\<^verbatim>\<open>ZeroDivisionError\<close> when it is zero), and
  \<^verbatim>\<open>purchase_basic_item\<close> multiplies the quantity by a float (\<^verbatim>\<open>OverflowError\<close> when the
  quantity is too large for one).
\<close>

datatype reply =
    In_Stock string int double
  | Not_In_Inventory string
  | Budget_Status double double double
  | Zero_Division_Error
  | Overflow_Error
  | Recent_Purchases "string list"
  | Purchased int string double double
  | Insufficient_Budget double double
  | Not_Found string
  | Use_Basic_Instead string double
  | Purchased_Expensive string double string double
  | Purchased_Luxury string string double string double
  | Insufficient_Budget_Luxury double double
  | Emergency_Budget_Approved double string double double

subsection \<open>Safe tools\<close>

fun check_inventory_loop :: "inventory \<Rightarrow> string \<Rightarrow> string \<Rightarrow> reply" where
  "check_inventory_loop [] item item_key = Not_In_Inventory item"
| "check_inventory_loop ((key, info) # rest) item item_key =
     (if str_in item_key key \<or> str_in key item_key
      then In_Stock item (stock info) (price info)
      else check_inventory_loop rest item item_key)"

definition check_inventory :: "ledger \<Rightarrow> string \<Rightarrow> reply" where
  "check_inventory s item =
     (let item_key = str_strip (str_lower item)
      in check_inventory_loop (INVENTORY s) item item_key)"

definition get_budget :: "ledger \<Rightarrow> reply" where
  "get_budget s =
     (let remaining = remaining (COMPANY_BUDGET s);
          limit = monthly_limit (COMPANY_BUDGET s)
      in if limit = Finite 0 then Zero_Division_Error
         else Budget_Status remaining limit (fmul (fdiv remaining limit) (Finite 100)))"

definition check_recent_purchases :: "reply" where
  "check_recent_purchases =
     Recent_Purchases
       [''Paper clips (500 units) - $12.99'',
        ''Coffee pods (50 count) - $24.99'',
        ''Sticky notes (pack of 10) - $8.50'']"

subsection \<open>Tools behind the approval decorator\<close>

text \<open>
  \<^verbatim>\<open>@hl.require_approval()\<close> belongs to an external library; the functions below are
  the bodies that run once a call has been approved.

  \<^verbatim>\<open>INVENTORY[key]["stock"] -= n\<close> changes the stock of the entry stored under
  \<^verbatim>\<open>key\<close> and nothing else; the stock is a Python int, which is unbounded.
\<close>

definition stock_sub :: "string \<Rightarrow> int \<Rightarrow> inventory \<Rightarrow> inventory" where
  "stock_sub key n items =
     map (\<lambda>(k, info). if k = key then (k, info\<lparr>stock := stock info - n\<rparr>) else (k, info)) items"

fun purchase_basic_item_loop ::
  "inventory \<Rightarrow> ledger \<Rightarrow> string \<Rightarrow> string \<Rightarrow> int \<Rightarrow> reply \<times> ledger" where
  "purchase_basic_item_loop [] s item item_key quantity = (Not_Found item, s)"
| "purchase_basic_item_loop ((key, info) # rest) s item item_key quantity =
     (if str_in item_key key \<or> str_in key item_key then
        (case int_to_double quantity of
           None \<Rightarrow> (Overflow_Error, s)
         | Some q \<Rightarrow>
            (let total_cost = fmul q (price info) in
             if fle total_cost (remaining (COMPANY_BUDGET s)) then
               (let s' = s\<lparr>COMPANY_BUDGET := (COMPANY_BUDGET s)
                             \<lparr>remaining := fsub (remaining (COMPANY_BUDGET s)) total_cost\<rparr>,
                           INVENTORY := stock_sub key quantity (INVENTORY s)\<rparr>
                in (Purchased quantity item total_cost (remaining (COMPANY_BUDGET s')), s'))
             else (Insufficient_Budget total_cost (remaining (COMPANY_BUDGET s)), s)))
      else purchase_basic_item_loop rest s item item_key quantity)"

definition purchase_basic_item :: "ledger \<Rightarrow> string \<Rightarrow> int \<Rightarrow> reply \<times> ledger" where
  "purchase_basic_item s item quantity =
     (let item_key = str_strip (str_lower item)
      in purchase_basic_item_loop (INVENTORY s) s item item_key quantity)"

fun purchase_expensive_item_loop ::
  "inventory \<Rightarrow> ledger \<Rightarrow> string \<Rightarrow> string \<Rightarrow> string \<Rightarrow> reply \<times> ledger" where
  "purchase_expensive_item_loop [] s item item_key justification = (Not_Found item, s)"
| "purchase_expensive_item_loop ((key, info) # rest) s item item_key justification =
     (if str_in item_key key \<or> str_in key item_key then
        (let cost = price info in
         if fle cost (Finite 200) then (Use_Basic_Instead item cost, s)
         else if fle cost (remaining (COMPANY_BUDGET s)) then
           (let s' = s\<lparr>COMPANY_BUDGET := (COMPANY_BUDGET s)
                         \<lparr>remaining := fsub (remaining (COMPANY_BUDGET s)) cost\<rparr>,
                       INVENTORY := stock_sub key 1 (INVENTORY s)\<rparr>
            in (Purchased_Expensive item cost justification (remaining (COMPANY_BUDGET s')), s'))
         else (Insufficient_Budget cost (remaining (COMPANY_BUDGET s)), s))
      else purchase_expensive_item_loop rest s item item_key justification)"

definition purchase_expensive_item :: "ledger \<Rightarrow> string \<Rightarrow> string \<Rightarrow> reply \<times> ledger" where
  "purchase_expensive_item s item justification =
     (let item_key = str_strip (str_lower item)
      in purchase_expensive_item_loop (INVENTORY s) s item item_key justification)"

definition purchase_luxury_item ::
  "ledger \<Rightarrow> string \<Rightarrow> double \<Rightarrow> string \<Rightarrow> string \<Rightarrow> reply \<times> ledger" where
  "purchase_luxury_item s item price' vendor justification =
     (if fle price' (remaining (COMPANY_BUDGET s)) then
        (let s' = s\<lparr>COMPANY_BUDGET := (COMPANY_BUDGET s)
                      \<lparr>remaining := fsub (remaining (COMPANY_BUDGET s)) price'\<rparr>\<rparr>
         in (Purchased_Luxury item vendor price' justification (remaining (COMPANY_BUDGET s')), s'))
      else (Insufficient_Budget_Luxury price' (remaining (COMPANY_BUDGET s)), s))"

definition emergency_budget_increase :: "ledger \<Rightarrow> double \<Rightarrow> string \<Rightarrow> reply \<times> ledger" where
  "emergency_budget_increase s amount reason =
     (let b = COMPANY_BUDGET s;
          b' = b\<lparr>remaining := fadd (remaining b) amount,
                 monthly_limit := fadd (monthly_limit b) amount\<rparr>;
          s' = s\<lparr>COMPANY_BUDGET := b'\<rparr>
      in (Emergency_Budget_Approved amount reason (monthly_limit b') (remaining b'), s'))"

subsection \<open>The agent's tool calls\<close>

text \<open>
  \<^verbatim>\<open>create_agent\<close> hands the seven tools to the agent, which calls them one after the
  other on the shared globals. A call is a tool with its arguments; a run threads the
  ledger through a list of calls. A call that raises leaves the globals as they were.
\<close>

datatype tool_call =
    Check_Inventory string
  | Get_Budget
  | Check_Recent_Purchases
  | Purchase_Basic_Item string int
  | Purchase_Expensive_Item string string
  | Purchase_Luxury_Item string double string string
  | Emergency_Budget_Increase double string

fun call :: "ledger \<Rightarrow> tool_call \<Rightarrow> reply \<times> ledger" where
  "call s (Check_Inventory item) = (check_inventory s item, s)"
| "call s Get_Budget = (get_budget s, s)"
| "call s Check_Recent_Purchases = (check_recent_purchases, s)"
| "call s (Purchase_Basic_Item item quantity) = purchase_basic_item s item quantity"
| "call s (Purchase_Expensive_Item item justification) =
     purchase_expensive_item s item justification"
| "call s (Purchase_Luxury_Item item price' vendor justification) =
     purchase_luxury_item s item price' vendor justification"
| "call s (Emergency_Budget_Increase amount reason) = emergency_budget_increase s amount reason"

fun run :: "ledger \<Rightarrow> tool_call list \<Rightarrow> ledger" where
  "run s [] = s"
| "run s (c # cs) = run (snd (call s c)) cs"

subsection \<open>Item lookup as the specification words it\<close>

text \<open>
  The specification describes one lookup, \<^verbatim>\<open>get_item\<close>: the first catalog entry, in
  catalog order, whose key contains the normalised query or is contained in it.
  The source has no such function; it repeats the loop in three tools. \<open>get_item\<close>
  is the specification's lookup, against which each of the three is compared.
\<close>

definition item_matches :: "string \<Rightarrow> string \<times> item_info \<Rightarrow> bool" where
  "item_matches item_key entry =
     (str_in item_key (fst entry) \<or> str_in (fst entry) item_key)"

definition get_item :: "inventory \<Rightarrow> string \<Rightarrow> (string \<times> item_info) option" where
  "get_item items name = find (item_matches (str_strip (str_lower name))) items"

subsection \<open>Vocabulary of the properties\<close>

text \<open>
  A reply reports a committed mutation exactly when it comes from one of the four
  \<^verbatim>\<open>return\<close> statements that follow an assignment to the globals.
\<close>

fun committed :: "reply \<Rightarrow> bool" where
  "committed (Purchased quantity item total_cost left) = True"
| "committed (Purchased_Expensive item cost justification left) = True"
| "committed (Purchased_Luxury item vendor cost justification left) = True"
| "committed (Emergency_Budget_Approved amount reason limit left) = True"
| "committed r = False"

text \<open>The reply with the echoed justification (or reason) blanked.\<close>

fun without_text :: "reply \<Rightarrow> reply" where
  "without_text (Purchased_Expensive item cost justification left) =
     Purchased_Expensive item cost [] left"
| "without_text (Purchased_Luxury item vendor cost justification left) =
     Purchased_Luxury item vendor cost [] left"
| "without_text (Emergency_Budget_Approved amount reason limit left) =
     Emergency_Budget_Approved amount [] limit left"
| "without_text r = r"

definition stocks_nonneg :: "inventory \<Rightarrow> bool" where
  "stocks_nonneg items = list_all (\<lambda>(key, info). 0 \<le> stock info) items"

definition prices_nonneg :: "inventory \<Rightarrow> bool" where
  "prices_nonneg items = list_all (\<lambda>(key, info). fle (Finite 0) (price info)) items"

text \<open>A call that is not an emergency increase by a negative amount.\<close>

fun increase_nonneg :: "tool_call \<Rightarrow> bool" where
  "increase_nonneg (Emergency_Budget_Increase amount reason) = (\<not> flt amount (Finite 0))"
| "increase_nonneg c = True"

text \<open>A call that is not a purchase with a negative quantity or a negative price.\<close>

fun purchase_nonneg :: "tool_call \<Rightarrow> bool" where
  "purchase_nonneg (Purchase_Basic_Item item quantity) = (0 \<le> quantity)"
| "purchase_nonneg (Purchase_Luxury_Item item price' vendor justification) =
     (\<not> flt price' (Finite 0))"
| "purchase_nonneg c = True"

section \<open>Rounding to the nearest float\<close>

lemma round_half_even_lower: "x - 1 / 2 \<le> of_int (round_half_even x)"
  unfolding round_half_even_def Let_def by (auto; linarith)

lemma round_half_even_upper: "of_int (round_half_even x) \<le> x + 1 / 2"
  unfolding round_half_even_def Let_def by (auto; linarith)

lemma round_half_even_of_int [simp]: "round_half_even (of_int n) = n"
  unfolding round_half_even_def Let_def by simp

lemma round_half_even_floor: "\<lfloor>x\<rfloor> \<le> round_half_even x \<and> round_half_even x \<le> \<lfloor>x\<rfloor> + 1"
  unfolding round_half_even_def Let_def by auto

lemma round_half_even_mono: "x \<le> y \<Longrightarrow> round_half_even x \<le> round_half_even y"
proof -
  assume xy: "x \<le> y"
  then have f: "\<lfloor>x\<rfloor> \<le> \<lfloor>y\<rfloor>" by (rule floor_mono)
  show ?thesis
  proof (cases "\<lfloor>x\<rfloor> = \<lfloor>y\<rfloor>")
    case True
    with xy have "x - of_int \<lfloor>x\<rfloor> \<le> y - of_int \<lfloor>y\<rfloor>" by simp
    with True show ?thesis
      unfolding round_half_even_def Let_def by auto
  next
    case False
    with f have "\<lfloor>x\<rfloor> + 1 \<le> \<lfloor>y\<rfloor>" by simp
    with round_half_even_floor[of x] round_half_even_floor[of y] show ?thesis by linarith
  qed
qed

lemma round_half_even_le_int: "x \<le> of_int n \<Longrightarrow> round_half_even x \<le> n"
  using round_half_even_mono[of x "of_int n"] by simp

lemma round_half_even_ge_int: "of_int n \<le> x \<Longrightarrow> n \<le> round_half_even x"
  using round_half_even_mono[of "of_int n" x] by simp

lemma bitlen_powi_bounds:
  assumes "0 < n"
  shows "(2::rat) powi (bitlen n - 1) \<le> of_int n" and "of_int n < (2::rat) powi bitlen n"
proof -
  from assms have b: "1 \<le> bitlen n" by (auto simp: bitlen_alt_def)
  from bitlen_bounds[OF assms] have "2 ^ nat (bitlen n - 1) \<le> n" and "n < 2 ^ nat (bitlen n)"
    by simp_all
  then have "(of_int (2 ^ nat (bitlen n - 1)) :: rat) \<le> of_int n"
    and "(of_int n :: rat) < of_int (2 ^ nat (bitlen n))"
    by (simp_all only: of_int_le_iff of_int_less_iff)
  with b show "(2::rat) powi (bitlen n - 1) \<le> of_int n" and "of_int n < (2::rat) powi bitlen n"
    by (simp_all add: power_int_nonneg_exp)
qed

lemma ilog2_bounds:
  assumes "0 < x"
  shows "2 powi ilog2 x \<le> x \<and> x < 2 powi (ilog2 x + 1)"
proof -
  obtain p q where pq: "quotient_of x = (p, q)" by (cases "quotient_of x")
  then have q: "0 < q" by (rule quotient_of_denom_pos)
  from pq have x: "x = of_int p / of_int q" by (rule quotient_of_div)
  with assms q have p: "0 < p" by (simp add: zero_less_divide_iff)
  define d where "d = bitlen p - bitlen q"
  note P = bitlen_powi_bounds[OF p] and Q = bitlen_powi_bounds[OF q]
  have qpos: "(0::rat) < of_int q" using q by simp
  have "x < 2 powi bitlen p / 2 powi (bitlen q - 1)"
    unfolding x using P(2) Q(1) qpos p
    by (intro frac_less) auto
  also have "\<dots> = 2 powi (d + 1)"
    unfolding d_def by (simp add: power_int_diff[symmetric] algebra_simps)
  finally have up: "x < 2 powi (d + 1)" .
  have "(2::rat) powi (d - 1) = 2 powi (bitlen p - 1) / 2 powi bitlen q"
    unfolding d_def by (simp add: power_int_diff[symmetric] algebra_simps)
  also have "\<dots> < x"
    unfolding x using P(1) Q(2) qpos
    by (intro frac_less2) auto
  finally have low: "2 powi (d - 1) < x" .
  have "ilog2 x = (if 2 powi d \<le> x then d else d - 1)"
    by (simp add: ilog2_def pq d_def)
  with up low show ?thesis by (auto simp: less_imp_le)
qed

lemma powi2_mono: "a \<le> b \<Longrightarrow> (2::rat) powi a \<le> 2 powi b"
  by (rule power_int_increasing) simp_all

lemma powi2_less_imp: "(2::rat) powi a < 2 powi b \<Longrightarrow> a < b"
  using powi2_mono[of b a] by (cases "a < b") auto

lemma ilog2_unique:
  assumes "2 powi k \<le> x" and "x < 2 powi (k + 1)"
  shows "ilog2 x = k"
proof -
  have "(0::rat) < 2 powi k" by simp
  with assms(1) have pos: "0 < x" by linarith
  from ilog2_bounds[OF pos] assms
  have "(2::rat) powi k < 2 powi (ilog2 x + 1)" and "(2::rat) powi ilog2 x < 2 powi (k + 1)"
    by linarith+
  then have "k < ilog2 x + 1" and "ilog2 x < k + 1" by (auto dest: powi2_less_imp)
  then show ?thesis by simp
qed

lemma ilog2_mono:
  assumes "0 < x" and "x \<le> y"
  shows "ilog2 x \<le> ilog2 y"
proof -
  from assms have y: "0 < y" by simp
  from ilog2_bounds[OF assms(1)] ilog2_bounds[OF y] assms(2)
  have "(2::rat) powi ilog2 x < 2 powi (ilog2 y + 1)" by linarith
  then have "ilog2 x < ilog2 y + 1" by (rule powi2_less_imp)
  then show ?thesis by simp
qed

lemma ulp_exp_mono: "0 < x \<Longrightarrow> x \<le> y \<Longrightarrow> ulp_exp x \<le> ulp_exp y"
  unfolding ulp_exp_def using ilog2_mono[of x y] by simp

lemma ulp_exp_lower: "- 1074 \<le> ulp_exp x" and ulp_exp_ilog2: "ilog2 \<bar>x\<bar> - 52 \<le> ulp_exp x"
  by (simp_all add: ulp_exp_def)

lemma powi2_add: "(2::rat) powi (a + b) = 2 powi a * 2 powi b"
  by (simp add: power_int_add)

lemma powi2_pos [simp]: "(0::rat) < 2 powi a"
  by simp

lemma scaled_less:
  assumes "0 < x"
  shows "x / 2 powi ulp_exp x < 2 ^ 53"
proof -
  from ilog2_bounds[OF assms] have "x < 2 powi (ilog2 x + 1)" by simp
  also have "\<dots> \<le> 2 powi (ulp_exp x + 53)"
    using ulp_exp_ilog2[of x] assms by (intro powi2_mono) simp
  also have "\<dots> = 2 powi ulp_exp x * 2 ^ 53"
    by (simp add: powi2_add)
  finally show ?thesis by (simp add: pos_divide_less_eq mult.commute)
qed

lemma nearest_pos:
  "0 < x \<Longrightarrow> nearest x = of_int (round_half_even (x / 2 powi ulp_exp x)) * 2 powi ulp_exp x"
  by (simp add: nearest_def)

lemma nearest_minus: "nearest (- x) = - nearest x"
  by (simp add: nearest_def ulp_exp_def sgn_minus)

lemma nearest_zero [simp]: "nearest 0 = 0"
  by (simp add: nearest_def)

lemma nearest_nonneg: "0 \<le> x \<Longrightarrow> 0 \<le> nearest x"
proof (cases "x = 0")
  case False
  assume "0 \<le> x"
  with False have x: "0 < x" by simp
  then have "0 \<le> x / 2 powi ulp_exp x" by simp
  then have "of_int 0 \<le> x / 2 powi ulp_exp x" by simp
  then have "0 \<le> round_half_even (x / 2 powi ulp_exp x)" by (rule round_half_even_ge_int)
  with x show ?thesis by (simp add: nearest_pos)
qed simp

lemma grid_fixed:
  assumes m: "0 < m" and k: "- 1074 \<le> k" and lt: "of_int m * 2 powi k < (2::rat) powi (k + 53)"
  shows "nearest (of_int m * 2 powi k) = of_int m * 2 powi k"
proof -
  let ?y = "of_int m * (2::rat) powi k"
  from m have y: "0 < ?y" by simp
  from ilog2_bounds[OF y] lt have "(2::rat) powi ilog2 ?y < 2 powi (k + 53)" by linarith
  then have "ilog2 ?y < k + 53" by (rule powi2_less_imp)
  with k y have u: "ulp_exp ?y \<le> k" by (simp add: ulp_exp_def)
  define u where "u = ulp_exp ?y"
  from u have ku: "0 \<le> k - u" by (simp add: u_def)
  have "(2::rat) powi k = 2 powi (k - u) * 2 powi u"
    by (simp add: powi2_add[symmetric])
  also have "(2::rat) powi (k - u) = 2 ^ nat (k - u)"
    using ku by (rule power_int_nonneg_exp)
  finally have pk: "(2::rat) powi k = 2 ^ nat (k - u) * 2 powi u" .
  have "?y / 2 powi u = of_int (m * 2 ^ nat (k - u))"
    by (simp add: pk)
  then have "round_half_even (?y / 2 powi u) = m * 2 ^ nat (k - u)"
    by (simp only: round_half_even_of_int)
  then have "nearest ?y = of_int (m * 2 ^ nat (k - u)) * 2 powi u"
    using y by (simp only: nearest_pos[OF y] u_def[symmetric])
  also have "\<dots> = ?y" by (simp add: pk)
  finally show ?thesis .
qed

lemma nearest_idem_pos:
  assumes "0 < x"
  shows "nearest (nearest x) = nearest x"
proof -
  define e where "e = ulp_exp x"
  define m where "m = round_half_even (x / 2 powi e)"
  have n: "nearest x = of_int m * 2 powi e"
    using assms by (simp add: nearest_pos m_def e_def)
  have e: "- 1074 \<le> e" by (simp add: e_def ulp_exp_lower)
  from assms have "of_int 0 \<le> x / 2 powi e" by simp
  then have m0: "0 \<le> m" unfolding m_def by (rule round_half_even_ge_int)
  from scaled_less[OF assms] have "x / 2 powi e \<le> of_int (2 ^ 53)" by (simp add: e_def)
  then have m53: "m \<le> 2 ^ 53" unfolding m_def by (rule round_half_even_le_int)
  consider "m = 0" | "0 < m" "m < 2 ^ 53" | "m = 2 ^ 53" using m0 m53 by linarith
  then show ?thesis
  proof cases
    case 1
    with n show ?thesis by simp
  next
    case 2
    then have "(of_int m :: rat) < 2 ^ 53" by (metis of_int_less_iff of_int_numeral of_int_power)
    then have "of_int m * 2 powi e < (2::rat) powi (e + 53)"
      by (simp add: powi2_add mult.commute)
    from grid_fixed[OF 2(1) e this] n show ?thesis by simp
  next
    case 3
    have eq: "of_int m * (2::rat) powi e = of_int (2 ^ 52) * 2 powi (e + 1)"
      by (simp add: 3 powi2_add)
    have "of_int (2 ^ 52) * (2::rat) powi (e + 1) < 2 powi ((e + 1) + 53)"
      by (simp add: powi2_add)
    from grid_fixed[OF _ _ this] e have "nearest (of_int (2 ^ 52) * 2 powi (e + 1)) = of_int (2 ^ 52) * (2::rat) powi (e + 1)"
      by simp
    with n eq show ?thesis by simp
  qed
qed

lemma nearest_idem: "nearest (nearest x) = nearest x"
proof -
  consider "x = 0" | "0 < x" | "x < 0" by linarith
  then show ?thesis
  proof cases
    case 3
    then have "nearest (nearest (- x)) = nearest (- x)" by (intro nearest_idem_pos) simp
    then show ?thesis by (simp add: nearest_minus)
  qed (simp_all add: nearest_idem_pos)
qed

lemma nearest_mono_pos:
  assumes x: "0 < x" and xy: "x \<le> y"
  shows "nearest x \<le> nearest y"
proof -
  from x xy have y: "0 < y" by simp
  define ex where "ex = ulp_exp x"
  define ey where "ey = ulp_exp y"
  have exy: "ex \<le> ey" unfolding ex_def ey_def using x xy by (rule ulp_exp_mono)
  have nx: "nearest x = of_int (round_half_even (x / 2 powi ex)) * 2 powi ex"
    using x by (simp add: nearest_pos ex_def)
  have ny: "nearest y = of_int (round_half_even (y / 2 powi ey)) * 2 powi ey"
    using y by (simp add: nearest_pos ey_def)
  show ?thesis
  proof (cases "ex = ey")
    case True
    from xy have "x / 2 powi ey \<le> y / 2 powi ey" by (simp add: divide_right_mono)
    then have "round_half_even (x / 2 powi ey) \<le> round_half_even (y / 2 powi ey)"
      by (rule round_half_even_mono)
    then have "(of_int (round_half_even (x / 2 powi ey)) :: rat) \<le> of_int (round_half_even (y / 2 powi ey))"
      by simp
    then show ?thesis unfolding nx ny True by (simp add: mult_right_mono)
  next
    case False
    with exy have lt: "ex < ey" by simp
    have "- 1074 \<le> ex" by (simp add: ex_def ulp_exp_lower)
    with lt have "ey \<noteq> - 1074" by simp
    then have ey: "ey = ilog2 y - 52" using y by (auto simp: ey_def ulp_exp_def max_def split: if_splits)
    have "ilog2 x - 52 \<le> ex" using ulp_exp_ilog2[of x] x by (simp add: ex_def)
    with lt ey have il: "ilog2 x + 1 \<le> ilog2 y" by simp
    define B where "B = (2::rat) powi ilog2 y"
    have By: "B = 2 ^ 52 * 2 powi ey"
      unfolding B_def ey using powi2_add[of 52 "ilog2 y - 52"] by simp
    have "of_int (2 ^ 52) \<le> y / 2 powi ey"
      using ilog2_bounds[OF y] by (simp add: B_def[symmetric] By pos_le_divide_eq)
    then have "2 ^ 52 \<le> round_half_even (y / 2 powi ey)" by (rule round_half_even_ge_int)
    then have "(of_int (2 ^ 52) :: rat) \<le> of_int (round_half_even (y / 2 powi ey))"
      by (simp only: of_int_le_iff)
    then have low: "B \<le> nearest y"
      unfolding ny By by (simp add: mult_right_mono)
    have d: "0 \<le> ilog2 y - ex" using il \<open>ilog2 x - 52 \<le> ex\<close> lt ey by simp
    have "(2::rat) powi ilog2 y = 2 powi (ilog2 y - ex) * 2 powi ex"
      using powi2_add[of "ilog2 y - ex" ex] by simp
    then have Bx: "B = 2 ^ nat (ilog2 y - ex) * 2 powi ex"
      unfolding B_def by (simp only: power_int_nonneg_exp[OF d])
    from ilog2_bounds[OF x] have "x < 2 powi (ilog2 x + 1)" by simp
    also have "\<dots> \<le> B" unfolding B_def using il by (rule powi2_mono)
    finally have "x \<le> B" by simp
    then have "x / 2 powi ex \<le> of_int (2 ^ nat (ilog2 y - ex))"
      by (simp add: Bx pos_divide_le_eq)
    then have "round_half_even (x / 2 powi ex) \<le> 2 ^ nat (ilog2 y - ex)"
      by (rule round_half_even_le_int)
    then have "(of_int (round_half_even (x / 2 powi ex)) :: rat) \<le> of_int (2 ^ nat (ilog2 y - ex))"
      by (simp only: of_int_le_iff)
    then have "nearest x \<le> B"
      unfolding nx Bx by (simp add: mult_right_mono)
    with low show ?thesis by simp
  qed
qed

lemma nearest_mono:
  assumes "x \<le> y"
  shows "nearest x \<le> nearest y"
proof -
  consider "0 < x" | "x \<le> 0" "0 \<le> y" | "y < 0" using assms by linarith
  then show ?thesis
  proof cases
    case 1
    then show ?thesis using assms by (rule nearest_mono_pos)
  next
    case 2
    then have "0 \<le> nearest (- x)" and "0 \<le> nearest y" by (simp_all add: nearest_nonneg)
    then show ?thesis by (simp add: nearest_minus)
  next
    case 3
    with assms have "0 < - y" and "- y \<le> - x" by simp_all
    then have "nearest (- y) \<le> nearest (- x)" by (rule nearest_mono_pos)
    then show ?thesis by (simp add: nearest_minus)
  qed
qed

lemma nearest_error: "\<bar>nearest x - x\<bar> \<le> 2 powi ulp_exp x / 2"
proof -
  have pos: "\<bar>nearest x - x\<bar> \<le> 2 powi ulp_exp x / 2" if x: "0 < x" for x
  proof -
    define e where "e = ulp_exp x"
    define z where "z = x / 2 powi e"
    have zx: "z * 2 powi e = x" by (simp add: z_def)
    have n: "nearest x = of_int (round_half_even z) * 2 powi e"
      using x by (simp add: nearest_pos z_def e_def)
    have "nearest x - x = (of_int (round_half_even z) - z) * 2 powi e"
      unfolding n by (simp add: left_diff_distrib zx)
    then have "\<bar>nearest x - x\<bar> = \<bar>of_int (round_half_even z) - z\<bar> * 2 powi e"
      by (simp add: abs_mult)
    also have "\<bar>of_int (round_half_even z) - z\<bar> \<le> 1 / 2"
      using round_half_even_lower[of z] round_half_even_upper[of z] by linarith
    finally show ?thesis by (simp add: e_def mult_right_mono)
  qed
  consider "x = 0" | "0 < x" | "x < 0" by linarith
  then show ?thesis
  proof cases
    case 3
    then have "\<bar>nearest (- x) - (- x)\<bar> \<le> 2 powi ulp_exp (- x) / 2" by (intro pos) simp
    then show ?thesis by (simp add: nearest_minus ulp_exp_def abs_minus_commute)
  next
    case 1
    then show ?thesis by simp
  next
    case 2
    then show ?thesis by (rule pos)
  qed
qed

lemma float_overflow_pos: "0 < float_overflow"
  by (simp add: float_overflow_def)

lemma rnd_not_NaN [simp]: "rnd x \<noteq> NaN"
  by (simp add: rnd_def Let_def)

lemma rnd_Finite_iff:
  "rnd x = Finite y \<longleftrightarrow> y = nearest x \<and> nearest x < float_overflow \<and> - float_overflow < nearest x"
  by (auto simp: rnd_def Let_def)

lemma rnd_PInf_iff: "rnd x = PInf \<longleftrightarrow> float_overflow \<le> nearest x"
  by (auto simp: rnd_def Let_def)

lemma rnd_MInf_iff: "rnd x = MInf \<longleftrightarrow> nearest x \<le> - float_overflow"
  using float_overflow_pos by (auto simp: rnd_def Let_def)

lemma rnd_mono: "x \<le> y \<Longrightarrow> fle (rnd x) (rnd y)"
  using nearest_mono[of x y] float_overflow_pos by (auto simp: rnd_def Let_def)

lemma rnd_nonneg: "0 \<le> x \<Longrightarrow> fle (Finite 0) (rnd x)"
  using nearest_nonneg[of x] float_overflow_pos by (auto simp: rnd_def Let_def)

lemma rnd_nonpos: "x \<le> 0 \<Longrightarrow> fle (rnd x) (Finite 0)"
  using nearest_nonneg[of "- x"] float_overflow_pos by (auto simp: rnd_def Let_def nearest_minus)

lemma rnd_representable [simp]: "representable (rnd x)"
proof (cases "rnd x")
  case (Finite y)
  then have "y = nearest x" and "nearest x < float_overflow" and "- float_overflow < nearest x"
    by (simp_all add: rnd_Finite_iff)
  then have "rnd y = Finite y" by (simp add: rnd_Finite_iff nearest_idem)
  with Finite show ?thesis by simp
qed simp_all

lemma rnd_le_representable:
  "x \<le> g \<Longrightarrow> representable (Finite g) \<Longrightarrow> fle (rnd x) (Finite g)"
  using rnd_mono[of x g] by simp

lemma rnd_ge_representable:
  "g \<le> x \<Longrightarrow> representable (Finite g) \<Longrightarrow> fle (Finite g) (rnd x)"
  using rnd_mono[of g x] by simp

lemma rnd_error: "rnd x = Finite y \<Longrightarrow> \<bar>y - x\<bar> \<le> 2 powi ulp_exp x / 2"
  using nearest_error[of x] by (simp add: rnd_Finite_iff)

lemma ulp_small:
  assumes "0 < x" and "x < 2 ^ 40"
  shows "2 powi ulp_exp x / 2 \<le> (1 / 2 ^ 14 :: rat)"
proof -
  from ilog2_bounds[OF assms(1)] assms(2) have "(2::rat) powi ilog2 x < 2 powi 40" by simp
  then have "ilog2 x < 40" by (rule powi2_less_imp)
  with assms(1) have "ulp_exp x \<le> - 13" by (simp add: ulp_exp_def)
  then have "(2::rat) powi ulp_exp x \<le> 2 powi (- 13)" by (rule powi2_mono)
  then show ?thesis by (simp add: power_int_minus)
qed

lemma rnd_close:
  assumes "0 \<le> x" and "x < 2 ^ 40" and "rnd x = Finite y"
  shows "\<bar>y - x\<bar> \<le> 1 / 2 ^ 14"
proof (cases "x = 0")
  case True
  with assms(3) show ?thesis by (simp add: rnd_Finite_iff float_overflow_pos)
next
  case False
  with assms(1) have "0 < x" by simp
  from rnd_error[OF assms(3)] ulp_small[OF this assms(2)] show ?thesis by linarith
qed

lemma nearest_one [simp]: "nearest 1 = 1"
  using grid_fixed[of 1 0] by simp

lemma int_to_double_Some:
  "int_to_double n = Some q \<Longrightarrow> q = rnd (of_int n) \<and> (\<exists>y. q = Finite y)"
  unfolding int_to_double_def by (cases "rnd (of_int n)") auto

lemma int_to_double_nonneg:
  "int_to_double n = Some q \<Longrightarrow> 0 \<le> n \<Longrightarrow> fle (Finite 0) q"
  using rnd_nonneg[of "of_int n"] by (auto dest!: int_to_double_Some)

lemma int_to_double_neg:
  assumes "int_to_double n = Some q" and "n < 0"
  shows "flt q (Finite 0)"
proof -
  from assms(1) obtain y where q: "q = Finite y" and r: "rnd (of_int n) = Finite y"
    by (auto dest!: int_to_double_Some)
  from assms(2) have "n \<le> - 1" by simp
  then have "(of_int n :: rat) \<le> of_int (- 1)" by (simp only: of_int_le_iff)
  then have "(of_int n :: rat) \<le> - 1" by simp
  then have "nearest (of_int n) \<le> nearest (- 1)" by (rule nearest_mono)
  with r have "y \<le> - 1" by (simp add: rnd_Finite_iff nearest_minus)
  with q show ?thesis by simp
qed

lemma pow2_1023_fixed: "nearest (2 ^ 1023) = 2 ^ 1023"
proof -
  have "nearest (of_int 1 * 2 powi 1023) = of_int 1 * (2::rat) powi 1023"
    by (rule grid_fixed) (simp_all add: powi2_add)
  then show ?thesis by simp
qed

lemma int_to_double_bounded:
  assumes "\<bar>n\<bar> \<le> 2 ^ 1023"
  shows "\<exists>y. int_to_double n = Some (Finite y)"
proof -
  from assms have "(of_int \<bar>n\<bar> :: rat) \<le> of_int (2 ^ 1023)" by (simp only: of_int_le_iff)
  then have b: "\<bar>of_int n :: rat\<bar> \<le> 2 ^ 1023" by simp
  then have "(of_int n :: rat) \<le> 2 ^ 1023" and "- (2 ^ 1023) \<le> (of_int n :: rat)" by linarith+
  then have "nearest (of_int n) \<le> nearest (2 ^ 1023)" and "nearest (- (2 ^ 1023)) \<le> nearest (of_int n)"
    by (simp_all only: nearest_mono)
  then have "nearest (of_int n) \<le> 2 ^ 1023" and "- (2 ^ 1023) \<le> nearest (of_int n)"
    by (simp_all only: nearest_minus pow2_1023_fixed)
  moreover have "(2::rat) ^ 1023 < float_overflow" by (simp add: float_overflow_def)
  ultimately have "nearest (of_int n) < float_overflow" and "- float_overflow < nearest (of_int n)"
    by linarith+
  then have "rnd (of_int n) = Finite (nearest (of_int n))" by (simp add: rnd_Finite_iff)
  then show ?thesis by (simp add: int_to_double_def)
qed

lemma fadd_representable [simp]: "representable (fadd a b)"
  by (cases a; cases b) simp_all

lemma fsub_representable [simp]: "representable (fsub a b)"
  by (cases a; cases b) simp_all

lemma fsub_ge_not_negative: "fle c r \<Longrightarrow> \<not> flt (fsub r c) (Finite 0)"
proof (cases r; cases c)
  fix a b assume "r = Finite a" "c = Finite b" "fle c r"
  then show ?thesis using rnd_nonneg[of "a - b"] by (cases "rnd (a - b)") auto
qed auto

lemma fadd_not_negative:
  "\<not> flt r (Finite 0) \<Longrightarrow> \<not> flt a (Finite 0) \<Longrightarrow> \<not> flt (fadd r a) (Finite 0)"
proof (cases r; cases a)
  fix x y assume "r = Finite x" "a = Finite y" "\<not> flt r (Finite 0)" "\<not> flt a (Finite 0)"
  then show ?thesis using rnd_nonneg[of "x + y"] by (cases "rnd (x + y)") auto
qed auto

lemma fle_not_flt: "fle a b \<Longrightarrow> \<not> flt b a"
  by (cases a; cases b) auto

lemma fadd_mono: "\<not> flt l r \<Longrightarrow> \<not> flt (fadd l a) (fadd r a)"
proof (cases r; cases l; cases a)
  fix x y z assume "r = Finite x" "l = Finite y" "a = Finite z" "\<not> flt l r"
  then show ?thesis using rnd_mono[of "x + z" "y + z"] by (auto dest: fle_not_flt)
qed auto

lemma fsub_below_limit:
  assumes "\<not> flt l r" and "representable l" and "fle c r" and "\<not> flt c (Finite 0)"
  shows "\<not> flt l (fsub r c)"
proof (cases r; cases c; cases l)
  fix x y g assume *: "r = Finite x" "c = Finite y" "l = Finite g"
  with assms have "x - y \<le> g" by simp
  with assms(2) * have "fle (rnd (x - y)) (Finite g)" by (intro rnd_le_representable) simp_all
  with * show ?thesis by (auto dest: fle_not_flt)
qed (use assms in auto)

lemma fsub_no_rise:
  assumes "representable r" and "fle c r" and "\<not> flt c (Finite 0)"
  shows "\<not> flt r (fsub r c)"
proof (cases r; cases c)
  fix x y assume *: "r = Finite x" "c = Finite y"
  with assms have "x - y \<le> x" by simp
  with assms(1) * have "fle (rnd (x - y)) (Finite x)" by (intro rnd_le_representable) simp_all
  with * show ?thesis by (auto dest: fle_not_flt)
qed (use assms in auto)

lemma fsub_credit:
  assumes "representable r" and "fle (Finite 0) r" and "fle c (Finite 0)"
  shows "fle c r \<and> fle r (fsub r c)"
proof (cases r; cases c)
  fix x y assume *: "r = Finite x" "c = Finite y"
  with assms have "x \<le> x - y" by simp
  with assms(1) * have "fle (Finite x) (rnd (x - y))" by (intro rnd_ge_representable) simp_all
  with * assms show ?thesis by auto
qed (use assms in auto)

lemma fmul_nonneg:
  "fle (Finite 0) q \<Longrightarrow> fle (Finite 0) p \<Longrightarrow> \<not> flt (fmul q p) (Finite 0)"
proof (cases q; cases p)
  fix x y assume "q = Finite x" "p = Finite y" "fle (Finite 0) q" "fle (Finite 0) p"
  then show ?thesis using rnd_nonneg[of "x * y"] by (auto dest: fle_not_flt)
qed auto

lemma round_half_even_unique:
  assumes "\<bar>z - of_int m\<bar> < 1 / 2"
  shows "round_half_even z = m"
proof -
  from round_half_even_lower[of z] round_half_even_upper[of z] assms
  have "\<bar>(of_int (round_half_even z) :: rat) - of_int m\<bar> < 1" by linarith
  then have "\<bar>(of_int (round_half_even z - m) :: rat)\<bar> < of_int 1" by simp
  then have "\<bar>round_half_even z - m\<bar> < 1" by (simp only: of_int_abs[symmetric] of_int_less_iff)
  then show ?thesis by simp
qed

lemma nearest_eqI:
  assumes lo: "2 powi (e + 52) \<le> x" and hi: "x < 2 powi (e + 53)" and e: "- 1074 \<le> e"
    and m: "\<bar>x / 2 powi e - of_int m\<bar> < 1 / 2"
  shows "nearest x = of_int m * 2 powi e"
proof -
  have "(0::rat) < 2 powi (e + 52)" by simp
  with lo have x: "0 < x" by linarith
  from lo hi have "ilog2 x = e + 52" by (intro ilog2_unique) (simp_all add: add.assoc)
  with e x have u: "ulp_exp x = e" by (simp add: ulp_exp_def)
  from m have "round_half_even (x / 2 powi e) = m" by (rule round_half_even_unique)
  with x u show ?thesis by (simp add: nearest_pos)
qed

lemma round_half_even_tie:
  assumes "\<bar>z - of_int m\<bar> = 1 / 2" and "even m"
  shows "round_half_even z = m"
proof -
  consider "z = of_int m + 1 / 2" | "z = of_int m - 1 / 2" using assms(1) by (auto simp: abs_if split: if_splits) (linarith+)?
  then show ?thesis
  proof cases
    case 1
    then have "\<lfloor>z\<rfloor> = m" by (simp add: floor_unique)
    with 1 assms(2) show ?thesis by (simp add: round_half_even_def Let_def)
  next
    case 2
    then have f: "\<lfloor>z\<rfloor> = m - 1" by (simp add: floor_unique)
    with 2 have "z - of_int \<lfloor>z\<rfloor> = 1 / 2" by simp
    with f assms(2) show ?thesis by (simp add: round_half_even_def Let_def)
  qed
qed

lemma rnd_of_nearest:
  assumes "nearest x = of_int m * 2 powi e" and "0 < x" and "m < 2 ^ 53" and "e \<le> 971"
    and "y = of_int m * 2 powi e"
  shows "rnd x = Finite y"
proof -
  from assms(1,2) nearest_nonneg[of x] have y0: "0 \<le> of_int m * (2::rat) powi e" by simp
  from assms(3) have "(of_int m :: rat) < of_int (2 ^ 53)" by (simp only: of_int_less_iff)
  then have "(of_int m :: rat) < 2 ^ 53" by simp
  then have "of_int m * (2::rat) powi e < 2 ^ 53 * 2 powi e"
    by (intro mult_strict_right_mono) simp_all
  also have "\<dots> = 2 powi (e + 53)"
    using powi2_add[of e 53] by (simp only: power_int_numeral mult.commute)
  also have "\<dots> \<le> 2 powi 1024" using assms(4) by (intro powi2_mono) simp
  also have "(2::rat) powi 1024 = float_overflow" by (simp add: float_overflow_def)
  finally have "of_int m * (2::rat) powi e < float_overflow" .
  with y0 float_overflow_pos assms(1,5) show ?thesis by (simp add: rnd_Finite_iff)
qed

lemma nearest_tieI:
  assumes lo: "2 powi (e + 52) \<le> x" and hi: "x < 2 powi (e + 53)" and e: "- 1074 \<le> e"
    and m: "\<bar>x / 2 powi e - of_int m\<bar> = 1 / 2" and ev: "even m"
  shows "nearest x = of_int m * 2 powi e"
proof -
  have "(0::rat) < 2 powi (e + 52)" by simp
  with lo have x: "0 < x" by linarith
  from lo hi have "ilog2 x = e + 52" by (intro ilog2_unique) (simp_all add: add.assoc)
  with e x have u: "ulp_exp x = e" by (simp add: ulp_exp_def)
  from m ev have "round_half_even (x / 2 powi e) = m" by (rule round_half_even_tie)
  with x u show ?thesis by (simp add: nearest_pos)
qed

text \<open>
  Certificates for a rounding: \<open>x\<close> lies in the binade of spacing \<open>2 ^ e\<close>, and the
  multiple \<open>m * 2 ^ e\<close> is within half a spacing of it (an even \<open>m\<close> on a tie).
\<close>

lemma rnd_eqI:
  assumes "2 powi (e + 52) \<le> x" and "x < 2 powi (e + 53)" and "- 1074 \<le> e" and "e \<le> 971"
    and "\<bar>x / 2 powi e - of_int m\<bar> < 1 / 2" and "m < 2 ^ 53" and "y = of_int m * 2 powi e"
  shows "rnd x = Finite y"
proof -
  have "(0::rat) < 2 powi (e + 52)" by simp
  with assms(1) have x: "0 < x" by linarith
  from assms have "nearest x = of_int m * 2 powi e" by (intro nearest_eqI)
  from rnd_of_nearest[OF this x assms(6) assms(4) assms(7)] show ?thesis .
qed

lemma rnd_tieI:
  assumes "2 powi (e + 52) \<le> x" and "x < 2 powi (e + 53)" and "- 1074 \<le> e" and "e \<le> 971"
    and "\<bar>x / 2 powi e - of_int m\<bar> = 1 / 2" and "even m" and "m < 2 ^ 53"
    and "y = of_int m * 2 powi e"
  shows "rnd x = Finite y"
proof -
  have "(0::rat) < 2 powi (e + 52)" by simp
  with assms(1) have x: "0 < x" by linarith
  from assms have "nearest x = of_int m * 2 powi e" by (intro nearest_tieI)
  from rnd_of_nearest[OF this x assms(7) assms(4) assms(8)] show ?thesis .
qed

lemma nearest_overflow: "nearest float_overflow = float_overflow"
proof -
  have "nearest (of_int 1 * 2 powi 1024) = of_int 1 * (2::rat) powi 1024"
    by (rule grid_fixed) (simp_all add: powi2_add)
  then show ?thesis by (simp add: float_overflow_def)
qed

lemma rnd_PInf_I: "float_overflow \<le> x \<Longrightarrow> rnd x = PInf"
  using nearest_mono[of float_overflow x] by (simp add: rnd_PInf_iff nearest_overflow)

lemma rnd_MInf_I: "x \<le> - float_overflow \<Longrightarrow> rnd x = MInf"
  using nearest_mono[of x "- float_overflow"]
  by (simp add: rnd_MInf_iff nearest_overflow nearest_minus)

lemma rnd_uminus:
  "rnd (- x) = (case rnd x of Finite y \<Rightarrow> Finite (- y) | PInf \<Rightarrow> MInf | MInf \<Rightarrow> PInf | NaN \<Rightarrow> NaN)"
  using float_overflow_pos by (auto simp: rnd_def Let_def nearest_minus)

lemma rnd_dyadic:
  assumes "\<bar>n\<bar> < 2 ^ 53" and "k \<le> 1074"
  shows "rnd (of_int n / 2 ^ k) = Finite (of_int n / 2 ^ k)"
proof -
  have pos: "nearest (of_int m / 2 ^ k) = of_int m / 2 ^ k \<and>
      (of_int m / 2 ^ k :: rat) < float_overflow \<and> (0::rat) < of_int m / 2 ^ k"
    if m: "0 < m" "m < 2 ^ 53" for m
  proof -
    have pk: "(2::rat) powi (- int k) = 1 / 2 ^ k" by (simp add: power_int_minus_divide)
    from m(2) have "(of_int m :: rat) < of_int (2 ^ 53)" by (simp only: of_int_less_iff)
    then have lt: "(of_int m :: rat) < 2 ^ 53" by simp
    have split: "(2::rat) powi (- int k + 53) = 2 ^ 53 * 2 powi (- int k)"
      using powi2_add[of "- int k" 53] by (simp only: power_int_numeral mult.commute)
    from lt have "of_int m * 2 powi (- int k) < (2::rat) ^ 53 * 2 powi (- int k)"
      by (intro mult_strict_right_mono) simp_all
    then have "of_int m * 2 powi (- int k) < (2::rat) powi (- int k + 53)"
      by (simp only: split)
    from grid_fixed[OF m(1) _ this] assms(2) have "nearest (of_int m / 2 ^ k) = of_int m / 2 ^ k"
      by (simp add: pk)
    moreover have "(of_int m / 2 ^ k :: rat) \<le> of_int m" using m(1) by (simp add: divide_le_eq_1 pos_divide_le_eq mult_le_cancel_left1)
    moreover have "(2::rat) ^ 53 < float_overflow" by (simp add: float_overflow_def)
    moreover have "(0::rat) < of_int m / 2 ^ k" using m(1) by simp
    ultimately show ?thesis using lt by linarith
  qed
  consider "n = 0" | "0 < n" | "n < 0" by linarith
  then show ?thesis
  proof cases
    case 1
    then show ?thesis by (simp add: rnd_Finite_iff float_overflow_pos)
  next
    case 2
    with assms(1) pos[of n]
    have "nearest (of_int n / 2 ^ k) = of_int n / 2 ^ k"
      and "(of_int n / 2 ^ k :: rat) < float_overflow" by simp_all
    moreover from 2 have "(0::rat) < of_int n / 2 ^ k" by simp
    with float_overflow_pos have "- float_overflow < (of_int n / 2 ^ k :: rat)" by linarith
    ultimately show ?thesis by (simp add: rnd_Finite_iff)
  next
    case 3
    with assms(1) pos[of "- n"] have "nearest (- (of_int n / 2 ^ k)) = - (of_int n / 2 ^ k)"
      and "- (of_int n / 2 ^ k :: rat) < float_overflow" by simp_all
    moreover from 3 have "(of_int n / 2 ^ k :: rat) < 0" by (simp add: divide_neg_pos)
    with float_overflow_pos have "(of_int n / 2 ^ k :: rat) < float_overflow" by linarith
    ultimately have "nearest (of_int n / 2 ^ k) = of_int n / 2 ^ k"
      and "(of_int n / 2 ^ k :: rat) < float_overflow"
      and "- float_overflow < (of_int n / 2 ^ k :: rat)"
      by (simp_all add: nearest_minus)
    then show ?thesis by (simp add: rnd_Finite_iff)
  qed
qed

lemma int_to_double_small:
  "\<bar>n\<bar> < 2 ^ 53 \<Longrightarrow> int_to_double n = Some (Finite (of_int n))"
  using rnd_dyadic[of n 0] by (simp add: int_to_double_def)

lemma not_flt_zero_iff: "\<not> flt r (Finite 0) \<longleftrightarrow> fle (Finite 0) r \<or> r = NaN"
  by (cases r) auto

lemma not_flt_iff: "\<not> flt l r \<longleftrightarrow> fle r l \<or> r = NaN \<or> l = NaN"
  by (cases l; cases r) auto

lemma rnd_close_ex:
  assumes "0 \<le> x" and "x < 2 ^ 40"
  shows "\<exists>y. rnd x = Finite y \<and> \<bar>y - x\<bar> \<le> 1 / 2 ^ 14"
proof -
  have g: "nearest (of_int 1 * 2 powi 40) = of_int 1 * (2::rat) powi 40"
    by (rule grid_fixed) (simp_all add: powi2_add)
  from assms(2) have "nearest x \<le> nearest (2 ^ 40)" by (intro nearest_mono) simp
  with g have "nearest x \<le> 2 ^ 40" by simp
  moreover have "(2::rat) ^ 40 < float_overflow" by (simp add: float_overflow_def)
  moreover from assms(1) have "0 \<le> nearest x" by (rule nearest_nonneg)
  ultimately have "rnd x = Finite (nearest x)"
    using float_overflow_pos by (simp add: rnd_Finite_iff)
  with rnd_close[OF assms this] show ?thesis by blast
qed

lemma fmul_neg_finite:
  "x < 0 \<Longrightarrow> fle (Finite 0) p \<Longrightarrow> fle (fmul (Finite x) p) (Finite 0)"
proof (cases p)
  case (Finite y)
  assume "x < 0" "fle (Finite 0) p"
  with Finite have "x * y \<le> 0" by (simp add: mult_nonpos_nonneg)
  then have "fle (rnd (x * y)) (Finite 0)" by (rule rnd_nonpos)
  with Finite show ?thesis by simp
qed auto

subsection \<open>The roundings of the amounts used below\<close>

text \<open>
  Each rounding is certified by its binade and its mantissa, which are checked here.
\<close>

lemma rnd_12_99: "rnd (1299 / 100) = Finite (7312719894942843 / 562949953421312)"
  by (rule rnd_eqI[where e = "- 49" and m = 7312719894942843]) simp_all

lemma rnd_8_50: "rnd (17 / 2) = Finite (17 / 2)"
  by (rule rnd_eqI[where e = "- 49" and m = 4785074604081152]) simp_all

lemma rnd_24_99: "rnd (2499 / 100) = Finite (7034059667999293 / 281474976710656)"
  by (rule rnd_eqI[where e = "- 48" and m = 7034059667999293]) simp_all

lemma rnd_15_99: "rnd (1599 / 100) = Finite (9001569755206779 / 562949953421312)"
  by (rule rnd_eqI[where e = "- 49" and m = 9001569755206779]) simp_all

lemma rnd_149_99: "rnd (14999 / 100) = Finite (659662996200489 / 4398046511104)"
  by (rule rnd_eqI[where e = "- 45" and m = 5277303969603912]) simp_all

lemma rnd_299_99: "rnd (29999 / 100) = Finite (1319369972866089 / 4398046511104)"
  by (rule rnd_eqI[where e = "- 44" and m = 5277479891464356]) simp_all

lemma rnd_799_99: "rnd (79999 / 100) = Finite (3518393228418089 / 4398046511104)"
  by (rule rnd_eqI[where e = "- 43" and m = 7036786456836178]) simp_all

lemma rnd_1299_99: "rnd (129999 / 100) = Finite (5717416483970089 / 4398046511104)"
  by (rule rnd_eqI[where e = "- 42" and m = 5717416483970089]) simp_all

lemma rnd_2499_99: "rnd (249999 / 100) = Finite (1374384037161861 / 549755813888)"
  by (rule rnd_eqI[where e = "- 41" and m = 5497536148647444]) simp_all

lemma rnd_5000: "rnd (5000) = Finite (5000)"
  by (rule rnd_eqI[where e = "- 40" and m = 5497558138880000]) simp_all

lemma rnd_c11: "rnd (3417 / 2) = Finite (3417 / 2)"
  by (rule rnd_eqI[where e = "- 42" and m = 7514062464221184]) simp_all

lemma rnd_c12: "rnd (6583 / 2) = Finite (6583 / 2)"
  by (rule rnd_eqI[where e = "- 41" and m = 7238085045649408]) simp_all

lemma rnd_c13: "rnd (6783 / 2) = Finite (6783 / 2)"
  by (rule rnd_eqI[where e = "- 41" and m = 7457987371204608]) simp_all

lemma rnd_c14: "rnd (1000) = Finite (1000)"
  by (rule rnd_eqI[where e = "- 43" and m = 8796093022208000]) simp_all

lemma rnd_c15: "rnd (51 / 2) = Finite (51 / 2)"
  by (rule rnd_eqI[where e = "- 48" and m = 7177611906121728]) simp_all

lemma rnd_c16: "rnd (9949 / 2) = Finite (9949 / 2)"
  by (rule rnd_eqI[where e = "- 40" and m = 5469520592371712]) simp_all

lemma rnd_c17: "rnd (9849 / 2) = Finite (9849 / 2)"
  by (rule rnd_eqI[where e = "- 40" and m = 5414545010982912]) simp_all

lemma rnd_c18: "rnd (4950) = Finite (4950)"
  by (rule rnd_eqI[where e = "- 40" and m = 5442582557491200]) simp_all

lemma rnd_c19: "rnd (8049 / 2) = Finite (8049 / 2)"
  by (rule rnd_eqI[where e = "- 41" and m = 8849969091969024]) simp_all

lemma rnd_c20: "rnd (7034059667999293 / 70368744177664) = Finite (7034059667999293 / 70368744177664)"
  by (rule rnd_eqI[where e = "- 46" and m = 7034059667999293]) simp_all

lemma rnd_c21: "rnd (358877780556319293 / 70368744177664) = Finite (5607465321192489 / 1099511627776)"
  by (rule rnd_eqI[where e = "- 40" and m = 5607465321192489]) simp_all

lemma rnd_c22: "rnd (89884656743115795386465259539451236680898848947115328636715040578866337902750481566354238661203768010560056939935696678829394884407208311246423715319737062188883946712432742638151109800623047059726541476042502884419075341171231440736956555270413618581675255342293149119973622969239858152417678164812112073608) = Finite (89884656743115795386465259539451236680898848947115328636715040578866337902750481566354238661203768010560056939935696678829394884407208311246423715319737062188883946712432742638151109800623047059726541476042502884419075341171231440736956555270413618581675255342293149119973622969239858152417678164812112068608)"
  by (rule rnd_eqI[where e = 971 and m = 4503599627370496]) simp_all

lemma rnd_c23: "rnd (5250) = Finite (5250)"
  by (rule rnd_eqI[where e = "- 40" and m = 5772436045824000]) simp_all

lemma rnd_c24: "rnd (34) = Finite (34)"
  by (rule rnd_eqI[where e = "- 47" and m = 4785074604081152]) simp_all

lemma rnd_c25: "rnd (4966) = Finite (4966)"
  by (rule rnd_eqI[where e = "- 40" and m = 5460174743535616]) simp_all

lemma rnd_c26: "rnd (4925) = Finite (4925)"
  by (rule rnd_eqI[where e = "- 40" and m = 5415094766796800]) simp_all

lemma rnd_c27: "rnd (16272816071549911 / 4398046511104) = Finite (2034102008943739 / 549755813888)"
  by (rule rnd_tieI[where e = "- 41" and m = 8136408035774956]) simp_all

lemma rnd_c28: "rnd (9001569755206779 / 562949953421312) = Finite (9001569755206779 / 562949953421312)"
  by (rule rnd_eqI[where e = "- 49" and m = 9001569755206779]) simp_all

lemma rnd_c29: "rnd (2823751336861766779 / 562949953421312) = Finite (2757569664904069 / 549755813888)"
  by (rule rnd_eqI[where e = "- 40" and m = 5515139329808138]) simp_all

lemma rnd_c30: "rnd (1319369972866089 / 2199023255552) = Finite (1319369972866089 / 2199023255552)"
  by (rule rnd_eqI[where e = "- 43" and m = 5277479891464356]) simp_all

lemma rnd_c31: "rnd (9675746304893911 / 2199023255552) = Finite (1209468288111739 / 274877906944)"
  by (rule rnd_tieI[where e = "- 40" and m = 4837873152446956]) simp_all

lemma rnd_c32: "rnd (20670862582653911 / 4398046511104) = Finite (2583857822831739 / 549755813888)"
  by (rule rnd_eqI[where e = "- 40" and m = 5167715645663478]) simp_all

lemma rnd_c33: "rnd (4700) = Finite (4700)"
  by (rule rnd_eqI[where e = "- 40" and m = 5167704650547200]) simp_all

lemma rnd_142_89: "rnd (14289 / 100) = Finite (1256873731943301 / 8796093022208)"
  by (rule rnd_eqI[where e = "- 45" and m = 5027494927773204]) simp_all

lemma rnd_c35: "rnd (80439918844371273 / 562949953421312) = Finite (5027494927773205 / 35184372088832)"
  by (rule rnd_eqI[where e = "- 45" and m = 5027494927773205]) simp_all

lemma rnd_c36: "rnd (4990) = Finite (4990)"
  by (rule rnd_eqI[where e = "- 40" and m = 5486563022602240]) simp_all

lemma rnd_c37: "rnd (100) = Finite (100)"
  by (rule rnd_eqI[where e = "- 46" and m = 7036874417766400]) simp_all

lemma rnd_c38: "rnd (1374395032278139 / 549755813888) = Finite (1374395032278139 / 549755813888)"
  by (rule rnd_eqI[where e = "- 41" and m = 5497580129112556]) simp_all

lemma rnd_c39: "rnd (5497558139 / 274877906944) = Finite (5497558139 / 274877906944)"
  by (rule rnd_eqI[where e = "- 58" and m = 5764607523160064]) simp_all

lemma rnd_c40: "rnd (7034059667999293 / 140737488355328) = Finite (7034059667999293 / 140737488355328)"
  by (rule rnd_eqI[where e = "- 47" and m = 7034059667999293]) simp_all

lemma rnd_c41: "rnd (710721501444639293 / 140737488355328) = Finite (1388127932509061 / 274877906944)"
  by (rule rnd_eqI[where e = "- 40" and m = 5552511730036244]) simp_all

lemma rnd_c42: "rnd (5007) = Finite (5007)"
  by (rule rnd_eqI[where e = "- 40" and m = 5505254720274432]) simp_all

lemma rnd_c43: "rnd (10051 / 2) = Finite (10051 / 2)"
  by (rule rnd_eqI[where e = "- 40" and m = 5525595685388288]) simp_all

lemma rnd_c44: "rnd (5040) = Finite (5040)"
  by (rule rnd_eqI[where e = "- 40" and m = 5541538603991040]) simp_all

lemma rnd_c45: "rnd (9001569755206779 / 281474976710656) = Finite (9001569755206779 / 281474976710656)"
  by (rule rnd_eqI[where e = "- 48" and m = 9001569755206779]) simp_all

lemma rnd_c46: "rnd (1398373313798073221 / 281474976710656) = Finite (1365598939255931 / 274877906944)"
  by (rule rnd_eqI[where e = "- 40" and m = 5462395757023724]) simp_all

lemma rnd_c47: "rnd (1389371744042866565 / 281474976710656) = Finite (678404171895931 / 137438953472)"
  by (rule rnd_eqI[where e = "- 40" and m = 5427233375167448]) simp_all

lemma rnd_c48: "rnd (85) = Finite (85)"
  by (rule rnd_eqI[where e = "- 46" and m = 5981343255101440]) simp_all

lemma rnd_c49: "rnd (4915) = Finite (4915)"
  by (rule rnd_eqI[where e = "- 40" and m = 5404099650519040]) simp_all

lemma rnd_c50: "rnd (4830) = Finite (4830)"
  by (rule rnd_eqI[where e = "- 40" and m = 5310641162158080]) simp_all

lemma rnd_c51: "rnd (100000000000000005000) = Finite (100000000000000000000)"
  by (rule rnd_eqI[where e = 14 and m = 6103515625000000]) simp_all

lemma rnd_c52: "rnd (439804651110399994282583516029911 / 4398046511104) = Finite (100000000000000000000)"
  by (rule rnd_eqI[where e = 14 and m = 6103515625000000]) simp_all

lemma rnd_2_1023: "rnd (89884656743115795386465259539451236680898848947115328636715040578866337902750481566354238661203768010560056939935696678829394884407208311246423715319737062188883946712432742638151109800623047059726541476042502884419075341171231440736956555270413618581675255342293149119973622969239858152417678164812112068608) = Finite (89884656743115795386465259539451236680898848947115328636715040578866337902750481566354238661203768010560056939935696678829394884407208311246423715319737062188883946712432742638151109800623047059726541476042502884419075341171231440736956555270413618581675255342293149119973622969239858152417678164812112068608)"
  by (rule rnd_eqI[where e = 971 and m = 4503599627370496]) simp_all

lemma rnd_2500_01: "rnd (250001 / 100) = Finite (1374395032278139 / 549755813888)"
  by (rule rnd_eqI[where e = "- 41" and m = 5497580129112556]) simp_all

lemmas roundings =
  rnd_12_99 rnd_8_50 rnd_24_99 rnd_15_99 rnd_149_99 rnd_299_99 rnd_799_99 rnd_1299_99
  rnd_2499_99 rnd_5000 rnd_c11 rnd_c12 rnd_c13 rnd_c14 rnd_c15 rnd_c16
  rnd_c17 rnd_c18 rnd_c19 rnd_c20 rnd_c21 rnd_c22 rnd_c23 rnd_c24
  rnd_c25 rnd_c26 rnd_c27 rnd_c28 rnd_c29 rnd_c30 rnd_c31 rnd_c32
  rnd_c33 rnd_142_89 rnd_c35 rnd_c36 rnd_c37 rnd_c38 rnd_c39 rnd_c40
  rnd_c41 rnd_c42 rnd_c43 rnd_c44 rnd_c45 rnd_c46 rnd_c47 rnd_c48
  rnd_c49 rnd_c50 rnd_c51 rnd_c52 rnd_2_1023 rnd_2500_01

section \<open>Lemmas about the tools\<close>



lemma purchase_basic_item_loop_find:
  "purchase_basic_item_loop items s item k quantity =
     (case find (item_matches k) items of
        None \<Rightarrow> (Not_Found item, s)
      | Some (key, info) \<Rightarrow>
          (case int_to_double quantity of
             None \<Rightarrow> (Overflow_Error, s)
           | Some q \<Rightarrow>
               if fle (fmul q (price info)) (remaining (COMPANY_BUDGET s))
               then (Purchased quantity item (fmul q (price info))
                       (fsub (remaining (COMPANY_BUDGET s)) (fmul q (price info))),
                     s\<lparr>COMPANY_BUDGET := (COMPANY_BUDGET s)
                         \<lparr>remaining := fsub (remaining (COMPANY_BUDGET s)) (fmul q (price info))\<rparr>,
                       INVENTORY := stock_sub key quantity (INVENTORY s)\<rparr>)
               else (Insufficient_Budget (fmul q (price info)) (remaining (COMPANY_BUDGET s)), s)))"
  by (induction items) (auto simp: item_matches_def Let_def split: option.splits)

lemma purchase_expensive_item_loop_find:
  "purchase_expensive_item_loop items s item k justification =
     (case find (item_matches k) items of
        None \<Rightarrow> (Not_Found item, s)
      | Some (key, info) \<Rightarrow>
          if fle (price info) (Finite 200) then (Use_Basic_Instead item (price info), s)
          else if fle (price info) (remaining (COMPANY_BUDGET s))
          then (Purchased_Expensive item (price info) justification
                  (fsub (remaining (COMPANY_BUDGET s)) (price info)),
                s\<lparr>COMPANY_BUDGET := (COMPANY_BUDGET s)
                    \<lparr>remaining := fsub (remaining (COMPANY_BUDGET s)) (price info)\<rparr>,
                  INVENTORY := stock_sub key 1 (INVENTORY s)\<rparr>)
          else (Insufficient_Budget (price info) (remaining (COMPANY_BUDGET s)), s))"
  by (induction items) (auto simp: item_matches_def Let_def)

lemma purchase_basic_item_found:
  assumes "get_item (INVENTORY s) item = Some (key, info)"
  shows "purchase_basic_item s item quantity =
     (case int_to_double quantity of
        None \<Rightarrow> (Overflow_Error, s)
      | Some q \<Rightarrow>
          if fle (fmul q (price info)) (remaining (COMPANY_BUDGET s))
          then (Purchased quantity item (fmul q (price info))
                  (fsub (remaining (COMPANY_BUDGET s)) (fmul q (price info))),
                s\<lparr>COMPANY_BUDGET := (COMPANY_BUDGET s)
                    \<lparr>remaining := fsub (remaining (COMPANY_BUDGET s)) (fmul q (price info))\<rparr>,
                  INVENTORY := stock_sub key quantity (INVENTORY s)\<rparr>)
          else (Insufficient_Budget (fmul q (price info)) (remaining (COMPANY_BUDGET s)), s))"
  using assms
  by (simp add: purchase_basic_item_def get_item_def purchase_basic_item_loop_find)


lemma purchase_expensive_item_found:
  assumes "get_item (INVENTORY s) item = Some (key, info)"
  shows "purchase_expensive_item s item justification =
     (if fle (price info) (Finite 200) then (Use_Basic_Instead item (price info), s)
      else if fle (price info) (remaining (COMPANY_BUDGET s))
      then (Purchased_Expensive item (price info) justification
              (fsub (remaining (COMPANY_BUDGET s)) (price info)),
            s\<lparr>COMPANY_BUDGET := (COMPANY_BUDGET s)
                \<lparr>remaining := fsub (remaining (COMPANY_BUDGET s)) (price info)\<rparr>,
              INVENTORY := stock_sub key 1 (INVENTORY s)\<rparr>)
      else (Insufficient_Budget (price info) (remaining (COMPANY_BUDGET s)), s))"
  using assms
  by (simp add: purchase_expensive_item_def get_item_def purchase_expensive_item_loop_find)


lemma committed_without_text: "committed (without_text r) = committed r"
  by (cases r) simp_all

lemma find_item_matches_map_of:
  "find (item_matches q) items = Some (key, info) \<Longrightarrow> map_of items key = Some info"
proof (induction items)
  case Nil
  then show ?case by simp
next
  case (Cons e rest)
  obtain k i where e: "e = (k, i)" by (cases e)
  show ?case
  proof (cases "item_matches q e")
    case True
    with Cons.prems e show ?thesis by simp
  next
    case False
    with Cons.prems have f: "find (item_matches q) rest = Some (key, info)" by simp
    then have "item_matches q (key, info)" by (auto simp: find_Some_iff)
    with False e have "k \<noteq> key" by (auto simp: item_matches_def)
    with Cons.IH[OF f] e show ?thesis by simp
  qed
qed

lemma get_item_map_of:
  "get_item items name = Some (key, info) \<Longrightarrow> map_of items key = Some info"
  unfolding get_item_def by (rule find_item_matches_map_of)

lemma map_of_stock_sub:
  "map_of (stock_sub key n items) k =
     (if k = key then map_option (\<lambda>info. info\<lparr>stock := stock info - n\<rparr>) (map_of items k)
      else map_of items k)"
  by (induction items) (auto simp: stock_sub_def)

lemma keys_stock_sub: "map fst (stock_sub key n items) = map fst items"
  by (induction items) (auto simp: stock_sub_def)

lemma find_stock_sub:
  "find (item_matches q) items = Some (key, info) \<Longrightarrow>
   find (item_matches q) (stock_sub key n items) = Some (key, info\<lparr>stock := stock info - n\<rparr>)"
proof (induction items)
  case Nil
  then show ?case by simp
next
  case (Cons e rest)
  obtain k i where e: "e = (k, i)" by (cases e)
  show ?case
  proof (cases "item_matches q e")
    case True
    with Cons.prems e show ?thesis by (auto simp: stock_sub_def item_matches_def)
  next
    case False
    with Cons.prems have f: "find (item_matches q) rest = Some (key, info)" by simp
    then have "item_matches q (key, info)" by (auto simp: find_Some_iff)
    with False e have "k \<noteq> key" by (auto simp: item_matches_def)
    moreover from False e have "\<not> item_matches q (k, i)" by simp
    moreover from Cons.IH[OF f]
    have "find (item_matches q) (stock_sub key n rest) =
        Some (key, info\<lparr>stock := stock info - n\<rparr>)" .
    ultimately show ?thesis using e by (simp add: stock_sub_def)
  qed
qed

lemma get_item_stock_sub:
  "get_item items name = Some (key, info) \<Longrightarrow>
   get_item (stock_sub key n items) name = Some (key, info\<lparr>stock := stock info - n\<rparr>)"
  unfolding get_item_def by (rule find_stock_sub)

lemma prices_nonneg_stock_sub: "prices_nonneg (stock_sub key n items) = prices_nonneg items"
  by (induction items) (auto simp: stock_sub_def prices_nonneg_def split: if_splits)

lemma find_in_set: "find P xs = Some x \<Longrightarrow> x \<in> set xs"
  by (induction xs) (auto split: if_splits)

lemma get_item_price_nonneg:
  "get_item items name = Some (key, info) \<Longrightarrow> prices_nonneg items \<Longrightarrow>
   fle (Finite 0) (price info)"
  by (auto simp: get_item_def prices_nonneg_def list_all_iff dest!: find_in_set)




lemma purchase_basic_item_cases:
  "purchase_basic_item s item quantity = (r, s') \<Longrightarrow>
   s' = s \<or>
   (\<exists>key info q. get_item (INVENTORY s) item = Some (key, info) \<and>
      int_to_double quantity = Some q \<and>
      fle (fmul q (price info)) (remaining (COMPANY_BUDGET s)) \<and>
      s' = s\<lparr>COMPANY_BUDGET := (COMPANY_BUDGET s)
               \<lparr>remaining := fsub (remaining (COMPANY_BUDGET s)) (fmul q (price info))\<rparr>,
             INVENTORY := stock_sub key quantity (INVENTORY s)\<rparr>)"
  by (auto simp: purchase_basic_item_def get_item_def purchase_basic_item_loop_find
      split: option.splits if_splits)

lemma purchase_expensive_item_cases:
  "purchase_expensive_item s item justification = (r, s') \<Longrightarrow>
   s' = s \<or>
   (\<exists>key info. get_item (INVENTORY s) item = Some (key, info) \<and>
      fle (price info) (remaining (COMPANY_BUDGET s)) \<and>
      s' = s\<lparr>COMPANY_BUDGET := (COMPANY_BUDGET s)
               \<lparr>remaining := fsub (remaining (COMPANY_BUDGET s)) (price info)\<rparr>,
             INVENTORY := stock_sub key 1 (INVENTORY s)\<rparr>)"
  by (auto simp: purchase_expensive_item_def get_item_def purchase_expensive_item_loop_find
      split: option.splits if_splits)

lemma purchase_luxury_item_cases:
  "purchase_luxury_item s item p vendor justification = (r, s') \<Longrightarrow>
   s' = s \<or>
   (fle p (remaining (COMPANY_BUDGET s)) \<and>
    s' = s\<lparr>COMPANY_BUDGET := (COMPANY_BUDGET s)
             \<lparr>remaining := fsub (remaining (COMPANY_BUDGET s)) p\<rparr>\<rparr>)"
  by (auto simp: purchase_luxury_item_def Let_def split: if_splits)

lemma emergency_budget_increase_ledger:
  "snd (emergency_budget_increase s amount reason) =
     s\<lparr>COMPANY_BUDGET := (COMPANY_BUDGET s)
         \<lparr>remaining := fadd (remaining (COMPANY_BUDGET s)) amount,
          monthly_limit := fadd (monthly_limit (COMPANY_BUDGET s)) amount\<rparr>\<rparr>"
  by (simp add: emergency_budget_increase_def Let_def)





lemma not_negative_call:
  assumes "\<not> flt (remaining (COMPANY_BUDGET s)) (Finite 0)" and "increase_nonneg c"
  shows "\<not> flt (remaining (COMPANY_BUDGET (snd (call s c)))) (Finite 0)"
proof (cases c)
  case (Purchase_Basic_Item item quantity)
  obtain r s' where e: "purchase_basic_item s item quantity = (r, s')"
    by (cases "purchase_basic_item s item quantity")
  from purchase_basic_item_cases[OF e] show ?thesis
    using Purchase_Basic_Item e assms by (auto dest: fsub_ge_not_negative)
next
  case (Purchase_Expensive_Item item justification)
  obtain r s' where e: "purchase_expensive_item s item justification = (r, s')"
    by (cases "purchase_expensive_item s item justification")
  from purchase_expensive_item_cases[OF e] show ?thesis
    using Purchase_Expensive_Item e assms by (auto dest: fsub_ge_not_negative)
next
  case (Purchase_Luxury_Item item p vendor justification)
  obtain r s' where e: "purchase_luxury_item s item p vendor justification = (r, s')"
    by (cases "purchase_luxury_item s item p vendor justification")
  from purchase_luxury_item_cases[OF e] show ?thesis
    using Purchase_Luxury_Item e assms by (auto dest: fsub_ge_not_negative)
next
  case (Emergency_Budget_Increase amount reason)
  then show ?thesis using assms
    by (simp add: emergency_budget_increase_ledger fadd_not_negative)
qed (use assms in simp_all)

lemma not_negative_run:
  "\<not> flt (remaining (COMPANY_BUDGET s)) (Finite 0) \<Longrightarrow> list_all increase_nonneg cs \<Longrightarrow>
   \<not> flt (remaining (COMPANY_BUDGET (run s cs))) (Finite 0)"
proof (induction cs arbitrary: s)
  case Nil
  then show ?case by simp
next
  case (Cons c cs)
  from Cons.prems have "\<not> flt (remaining (COMPANY_BUDGET (snd (call s c)))) (Finite 0)"
    by (simp add: not_negative_call)
  with Cons show ?case by simp
qed

lemma list_all_take: "list_all P xs \<Longrightarrow> list_all P (take n xs)"
  by (auto simp: list_all_iff dest: in_set_takeD)

lemma prices_nonneg_call:
  "prices_nonneg (INVENTORY (snd (call s c))) = prices_nonneg (INVENTORY s)"
proof (cases c)
  case (Purchase_Basic_Item item quantity)
  obtain r s' where e: "purchase_basic_item s item quantity = (r, s')"
    by (cases "purchase_basic_item s item quantity")
  from purchase_basic_item_cases[OF e] show ?thesis
    using Purchase_Basic_Item e by (auto simp: prices_nonneg_stock_sub)
next
  case (Purchase_Expensive_Item item justification)
  obtain r s' where e: "purchase_expensive_item s item justification = (r, s')"
    by (cases "purchase_expensive_item s item justification")
  from purchase_expensive_item_cases[OF e] show ?thesis
    using Purchase_Expensive_Item e by (auto simp: prices_nonneg_stock_sub)
next
  case (Purchase_Luxury_Item item p vendor justification)
  obtain r s' where e: "purchase_luxury_item s item p vendor justification = (r, s')"
    by (cases "purchase_luxury_item s item p vendor justification")
  from purchase_luxury_item_cases[OF e] show ?thesis
    using Purchase_Luxury_Item e by auto
next
  case (Emergency_Budget_Increase amount reason)
  then show ?thesis by (simp add: emergency_budget_increase_ledger)
qed simp_all

text \<open>The invariant behind the bound of the remaining budget by the monthly limit.\<close>

lemma within_limit_call:
  assumes lim: "\<not> flt (monthly_limit (COMPANY_BUDGET s)) (remaining (COMPANY_BUDGET s))"
    and rep: "representable (monthly_limit (COMPANY_BUDGET s))"
    and pr: "prices_nonneg (INVENTORY s)" and nn: "purchase_nonneg c"
  shows "\<not> flt (monthly_limit (COMPANY_BUDGET (snd (call s c))))
              (remaining (COMPANY_BUDGET (snd (call s c)))) \<and>
         representable (monthly_limit (COMPANY_BUDGET (snd (call s c))))"
proof (cases c)
  case (Purchase_Basic_Item item quantity)
  obtain r s' where e: "purchase_basic_item s item quantity = (r, s')"
    by (cases "purchase_basic_item s item quantity")
  from purchase_basic_item_cases[OF e] show ?thesis
  proof
    assume "s' = s"
    with Purchase_Basic_Item e lim rep show ?thesis by simp
  next
    assume "\<exists>key info q. get_item (INVENTORY s) item = Some (key, info) \<and>
      int_to_double quantity = Some q \<and>
      fle (fmul q (price info)) (remaining (COMPANY_BUDGET s)) \<and>
      s' = s\<lparr>COMPANY_BUDGET := (COMPANY_BUDGET s)
               \<lparr>remaining := fsub (remaining (COMPANY_BUDGET s)) (fmul q (price info))\<rparr>,
             INVENTORY := stock_sub key quantity (INVENTORY s)\<rparr>"
    then obtain key info q where g: "get_item (INVENTORY s) item = Some (key, info)"
      and q: "int_to_double quantity = Some q"
      and f: "fle (fmul q (price info)) (remaining (COMPANY_BUDGET s))"
      and s': "s' = s\<lparr>COMPANY_BUDGET := (COMPANY_BUDGET s)
               \<lparr>remaining := fsub (remaining (COMPANY_BUDGET s)) (fmul q (price info))\<rparr>,
             INVENTORY := stock_sub key quantity (INVENTORY s)\<rparr>" by blast
    from g pr have p0: "fle (Finite 0) (price info)" by (rule get_item_price_nonneg)
    from nn Purchase_Basic_Item have "0 \<le> quantity" by simp
    with q have "fle (Finite 0) q" by (rule int_to_double_nonneg)
    from fmul_nonneg[OF this p0] have "\<not> flt (fmul q (price info)) (Finite 0)" .
    from fsub_below_limit[OF lim rep f this] s' Purchase_Basic_Item e rep
    show ?thesis by simp
  qed
next
  case (Purchase_Expensive_Item item justification)
  obtain r s' where e: "purchase_expensive_item s item justification = (r, s')"
    by (cases "purchase_expensive_item s item justification")
  from purchase_expensive_item_cases[OF e] show ?thesis
  proof
    assume "s' = s"
    with Purchase_Expensive_Item e lim rep show ?thesis by simp
  next
    assume "\<exists>key info. get_item (INVENTORY s) item = Some (key, info) \<and>
      fle (price info) (remaining (COMPANY_BUDGET s)) \<and>
      s' = s\<lparr>COMPANY_BUDGET := (COMPANY_BUDGET s)
               \<lparr>remaining := fsub (remaining (COMPANY_BUDGET s)) (price info)\<rparr>,
             INVENTORY := stock_sub key 1 (INVENTORY s)\<rparr>"
    then obtain key info where g: "get_item (INVENTORY s) item = Some (key, info)"
      and f: "fle (price info) (remaining (COMPANY_BUDGET s))"
      and s': "s' = s\<lparr>COMPANY_BUDGET := (COMPANY_BUDGET s)
               \<lparr>remaining := fsub (remaining (COMPANY_BUDGET s)) (price info)\<rparr>,
             INVENTORY := stock_sub key 1 (INVENTORY s)\<rparr>" by blast
    from g pr have "fle (Finite 0) (price info)" by (rule get_item_price_nonneg)
    then have "\<not> flt (price info) (Finite 0)" by (rule fle_not_flt)
    from fsub_below_limit[OF lim rep f this] s' Purchase_Expensive_Item e rep
    show ?thesis by simp
  qed
next
  case (Purchase_Luxury_Item item p vendor justification)
  obtain r s' where e: "purchase_luxury_item s item p vendor justification = (r, s')"
    by (cases "purchase_luxury_item s item p vendor justification")
  from purchase_luxury_item_cases[OF e] show ?thesis
  proof
    assume "s' = s"
    with Purchase_Luxury_Item e lim rep show ?thesis by simp
  next
    assume a: "fle p (remaining (COMPANY_BUDGET s)) \<and>
      s' = s\<lparr>COMPANY_BUDGET := (COMPANY_BUDGET s)
               \<lparr>remaining := fsub (remaining (COMPANY_BUDGET s)) p\<rparr>\<rparr>"
    from nn Purchase_Luxury_Item have "\<not> flt p (Finite 0)" by simp
    from fsub_below_limit[OF lim rep _ this] a Purchase_Luxury_Item e rep
    show ?thesis by simp
  qed
next
  case (Emergency_Budget_Increase amount reason)
  then show ?thesis using lim by (simp add: emergency_budget_increase_ledger fadd_mono)
qed (use lim rep in simp_all)

lemma within_limit_run:
  "\<not> flt (monthly_limit (COMPANY_BUDGET s)) (remaining (COMPANY_BUDGET s)) \<Longrightarrow>
   representable (monthly_limit (COMPANY_BUDGET s)) \<Longrightarrow>
   prices_nonneg (INVENTORY s) \<Longrightarrow> list_all purchase_nonneg cs \<Longrightarrow>
   \<not> flt (monthly_limit (COMPANY_BUDGET (run s cs))) (remaining (COMPANY_BUDGET (run s cs)))"
proof (induction cs arbitrary: s)
  case Nil
  then show ?case by simp
next
  case (Cons c cs)
  from Cons.prems within_limit_call[of s c]
  have "\<not> flt (monthly_limit (COMPANY_BUDGET (snd (call s c))))
              (remaining (COMPANY_BUDGET (snd (call s c))))"
    and "representable (monthly_limit (COMPANY_BUDGET (snd (call s c))))"
    by simp_all
  moreover from Cons.prems have "prices_nonneg (INVENTORY (snd (call s c)))"
    by (simp add: prices_nonneg_call)
  ultimately show ?case using Cons by simp
qed

lemma seeded_prices_nonneg: "prices_nonneg (INVENTORY seeded)"
  by (simp add: prices_nonneg_def seeded_def INVENTORY_seed_def rnd_nonneg)

lemma seeded_budget:
  "COMPANY_BUDGET seeded = \<lparr>remaining = Finite 5000, monthly_limit = Finite 5000\<rparr>"
  by (simp add: seeded_def COMPANY_BUDGET_seed_def rnd_5000)

subsection \<open>Evaluating calls on the seeded ledger\<close>

lemma norm_pens: "str_strip (str_lower ''pens'') = ''pens''"
  by code_simp

lemma norm_paper_clips: "str_strip (str_lower ''paper clips'') = ''paper clips''"
  by code_simp

lemma norm_staplers: "str_strip (str_lower ''staplers'') = ''staplers''"
  by code_simp

lemma norm_coffee: "str_strip (str_lower ''coffee'') = ''coffee''"
  by code_simp

lemma norm_desk_chairs: "str_strip (str_lower ''desk chairs'') = ''desk chairs''"
  by code_simp

lemma norm_standing_desks: "str_strip (str_lower ''standing desks'') = ''standing desks''"
  by code_simp

lemma norm_gaming_chair: "str_strip (str_lower ''gaming chair'') = ''gaming chair''"
  by code_simp

lemma norm_executive_desk: "str_strip (str_lower ''executive desk'') = ''executive desk''"
  by code_simp

lemma norm_Desk: "str_strip (str_lower '' Desk '') = ''desk''"
  by code_simp

lemma norm_Pens_nbsp: "str_strip (str_lower (''Pens'' @ [CHR 0xA0])) = ''pens''"
  by code_simp

lemma norm_toner: "str_strip (str_lower ''toner'') = ''toner''"
  by code_simp

lemmas normalised =
  norm_pens norm_paper_clips norm_staplers norm_coffee norm_desk_chairs norm_standing_desks
  norm_gaming_chair norm_executive_desk norm_Desk norm_Pens_nbsp norm_toner

lemmas ledger_eval =
  purchase_basic_item_def purchase_expensive_item_def purchase_luxury_item_def
  emergency_budget_increase_def check_inventory_def get_item_def item_matches_def
  Let_def seeded_def INVENTORY_seed_def COMPANY_BUDGET_seed_def
  stock_sub_def int_to_double_small rnd_uminus normalised roundings

section \<open>Properties of the specification, settled on the code\<close>

subsection \<open>The justification is policy-inert\<close>

text \<open>
  Claim C6. For a fixed ledger and fixed item, price, vendor and amount, running
  \<open>purchase_expensive_item\<close>, \<open>purchase_luxury_item\<close> or
  \<open>emergency_budget_increase\<close> with two different justification (reason) strings
  gives the same final ledger, the same success-or-failure decision and the same reply
  up to the echoed text.
\<close>

theorem justification_never_decides:
  "snd (purchase_expensive_item s item j1) = snd (purchase_expensive_item s item j2) \<and>
   without_text (fst (purchase_expensive_item s item j1)) =
     without_text (fst (purchase_expensive_item s item j2)) \<and>
   committed (fst (purchase_expensive_item s item j1)) =
     committed (fst (purchase_expensive_item s item j2)) \<and>
   snd (purchase_luxury_item s item p vendor j1) = snd (purchase_luxury_item s item p vendor j2) \<and>
   without_text (fst (purchase_luxury_item s item p vendor j1)) =
     without_text (fst (purchase_luxury_item s item p vendor j2)) \<and>
   committed (fst (purchase_luxury_item s item p vendor j1)) =
     committed (fst (purchase_luxury_item s item p vendor j2)) \<and>
   snd (emergency_budget_increase s amount j1) = snd (emergency_budget_increase s amount j2) \<and>
   without_text (fst (emergency_budget_increase s amount j1)) =
     without_text (fst (emergency_budget_increase s amount j2)) \<and>
   committed (fst (emergency_budget_increase s amount j1)) =
     committed (fst (emergency_budget_increase s amount j2))"
proof -
  have e: "snd (purchase_expensive_item s item j1) = snd (purchase_expensive_item s item j2) \<and>
    without_text (fst (purchase_expensive_item s item j1)) =
      without_text (fst (purchase_expensive_item s item j2))"
    by (simp add: purchase_expensive_item_def purchase_expensive_item_loop_find
        split: option.split)
  have l: "snd (purchase_luxury_item s item p vendor j1) =
      snd (purchase_luxury_item s item p vendor j2) \<and>
    without_text (fst (purchase_luxury_item s item p vendor j1)) =
      without_text (fst (purchase_luxury_item s item p vendor j2))"
    by (simp add: purchase_luxury_item_def Let_def)
  have b: "snd (emergency_budget_increase s amount j1) =
      snd (emergency_budget_increase s amount j2) \<and>
    without_text (fst (emergency_budget_increase s amount j1)) =
      without_text (fst (emergency_budget_increase s amount j2))"
    by (simp add: emergency_budget_increase_def Let_def)
  from e l b show ?thesis
    by (metis committed_without_text)
qed

subsection \<open>Item lookup\<close>



subsection \<open>Expensive purchases buy one unit\<close>

text \<open>
  Claim C10, as the code has it. \<open>purchase_expensive_item\<close> takes no quantity. For
  the catalog entry the lookup finds: when its unit price is at most 200 the call returns
  the redirect reply and the ledger is unchanged; when its price is above 200 and the
  remaining budget covers it, the call commits, leaves the monthly limit alone, lowers
  that entry's stock by exactly 1 and changes no other entry. The remaining budget
  becomes the float nearest to the remaining budget minus the unit price. While the
  remaining budget is below \<open>2 ^ 40\<close> that float is within \<open>2 ^ - 14\<close> of the exact
  difference; nothing is said of the size of the debit at larger budgets.
\<close>

theorem purchase_expensive_item_one_unit:
  assumes "get_item (INVENTORY s) item = Some (key, info)"
  shows
    "(fle (price info) (Finite 200) \<longrightarrow>
        purchase_expensive_item s item justification = (Use_Basic_Instead item (price info), s)) \<and>
     (\<not> fle (price info) (Finite 200) \<and> fle (price info) (remaining (COMPANY_BUDGET s)) \<longrightarrow>
        committed (fst (purchase_expensive_item s item justification)) \<and>
        remaining (COMPANY_BUDGET (snd (purchase_expensive_item s item justification))) =
          fsub (remaining (COMPANY_BUDGET s)) (price info) \<and>
        (\<forall>a b. remaining (COMPANY_BUDGET s) = Finite a \<and> price info = Finite b \<and> a < 2 ^ 40 \<longrightarrow>
           (\<exists>y. remaining (COMPANY_BUDGET (snd (purchase_expensive_item s item justification))) =
                  Finite y \<and> \<bar>y - (a - b)\<bar> \<le> 1 / 2 ^ 14)) \<and>
        monthly_limit (COMPANY_BUDGET (snd (purchase_expensive_item s item justification))) =
          monthly_limit (COMPANY_BUDGET s) \<and>
        map_of (INVENTORY (snd (purchase_expensive_item s item justification))) key =
          Some (info\<lparr>stock := stock info - 1\<rparr>) \<and>
        (\<forall>k. k \<noteq> key \<longrightarrow>
           map_of (INVENTORY (snd (purchase_expensive_item s item justification))) k =
           map_of (INVENTORY s) k) \<and>
        map fst (INVENTORY (snd (purchase_expensive_item s item justification))) =
          map fst (INVENTORY s))"
proof -
  note found = purchase_expensive_item_found[OF assms, of justification]
  have m: "map_of (INVENTORY s) key = Some info"
    using assms by (rule get_item_map_of)
  have close: "\<exists>y. fsub (Finite a) (Finite b) = Finite y \<and> \<bar>y - (a - b)\<bar> \<le> 1 / 2 ^ 14"
    if "fle (Finite b) (Finite a)" and "a < 2 ^ 40" and "\<not> fle (Finite b) (Finite 200)" for a b
  proof -
    from that have "0 \<le> a - b" and "a - b < 2 ^ 40" by simp_all
    from rnd_close_ex[OF this] show ?thesis by simp
  qed
  show ?thesis
    using close by (auto simp: found map_of_stock_sub keys_stock_sub m)
qed

text \<open>
  The gaming chair on the seeded ledger leaves the float that prints as 3700.01 and a
  stock of 1; pens are redirected.
\<close>

theorem purchase_expensive_item_one_unit_witness:
  "get_item (INVENTORY seeded) ''gaming chair'' =
     Some (''gaming chair'', \<lparr>stock = 2, price = rnd 1299.99\<rparr>) \<and>
   remaining (COMPANY_BUDGET (snd (purchase_expensive_item seeded ''gaming chair'' ''posture''))) =
     Finite (2034102008943739 / 549755813888) \<and>
   \<bar>2034102008943739 / 549755813888 - (3700.01 :: rat)\<bar> \<le> 1 / 2 ^ 14 \<and>
   map_of (INVENTORY (snd (purchase_expensive_item seeded ''gaming chair'' ''posture'')))
     ''gaming chair'' = Some \<lparr>stock = 1, price = rnd 1299.99\<rparr> \<and>
   get_item (INVENTORY seeded) ''pens'' = Some (''pens'', \<lparr>stock = 200, price = rnd 8.50\<rparr>) \<and>
   purchase_expensive_item seeded ''pens'' ''ink'' = (Use_Basic_Instead ''pens'' (Finite 8.5), seeded)"
proof -
  have g: "get_item (INVENTORY seeded) ''gaming chair'' =
      Some (''gaming chair'', \<lparr>stock = 2, price = rnd 1299.99\<rparr>)"
    by (simp add: get_item_def item_matches_def seeded_def INVENTORY_seed_def normalised)
  have p: "get_item (INVENTORY seeded) ''pens'' = Some (''pens'', \<lparr>stock = 200, price = rnd 8.50\<rparr>)"
    by (simp add: get_item_def item_matches_def seeded_def INVENTORY_seed_def normalised)
  from purchase_expensive_item_one_unit[OF g, of "''posture''"]
       purchase_expensive_item_one_unit[OF p, of "''ink''"] g p seeded_budget
  show ?thesis by (simp add: roundings)
qed

text \<open>
  The claim as stated has the debit be exactly the unit price. After an emergency
  increase by \<open>10 ^ 20\<close> the purchase of the gaming chair commits and takes a unit of
  stock, and the remaining budget is what it was: the price is lost in the rounding.
\<close>

theorem absorbed_debit_counterexample:
  "committed (fst (purchase_expensive_item
     (snd (emergency_budget_increase seeded (Finite (10 ^ 20)) ''expansion''))
     ''gaming chair'' ''posture'')) \<and>
   remaining (COMPANY_BUDGET (snd (emergency_budget_increase seeded (Finite (10 ^ 20))
     ''expansion''))) = Finite (10 ^ 20) \<and>
   remaining (COMPANY_BUDGET (snd (purchase_expensive_item
     (snd (emergency_budget_increase seeded (Finite (10 ^ 20)) ''expansion''))
     ''gaming chair'' ''posture''))) = Finite (10 ^ 20) \<and>
   map_of (INVENTORY (snd (purchase_expensive_item
     (snd (emergency_budget_increase seeded (Finite (10 ^ 20)) ''expansion''))
     ''gaming chair'' ''posture''))) ''gaming chair'' = Some \<lparr>stock = 1, price = rnd 1299.99\<rparr>"
  by (simp add: ledger_eval)

subsection \<open>The remaining budget never goes negative\<close>

text \<open>
  Claim C1, as the code has it. Along every sequence of tool calls from the seeded
  ledger in which no emergency increase has a negative amount, the remaining budget is
  never negative after a call: it is at least 0, or it is NaN (which arises when an
  infinite remaining budget meets an infinite cost). Every purchase checks the funds
  before it debits, whatever its arguments. Nothing of the kind holds for stock: no
  purchase looks at it.
\<close>

theorem remaining_budget_never_negative:
  assumes "list_all increase_nonneg cs"
  shows "fle (Finite 0) (remaining (COMPANY_BUDGET (run seeded (take n cs)))) \<or>
         remaining (COMPANY_BUDGET (run seeded (take n cs))) = NaN"
proof -
  have "\<not> flt (remaining (COMPANY_BUDGET seeded)) (Finite 0)"
    by (simp add: seeded_budget)
  moreover from assms have "list_all increase_nonneg (take n cs)"
    by (rule list_all_take)
  ultimately have "\<not> flt (remaining (COMPANY_BUDGET (run seeded (take n cs)))) (Finite 0)"
    by (rule not_negative_run)
  then show ?thesis by (simp add: not_flt_zero_iff)
qed

text \<open>
  A run with an oversized order, an emergency increase and a luxury purchase that is
  refused.
\<close>

theorem remaining_budget_never_negative_witness:
  "list_all increase_nonneg
     [Purchase_Basic_Item ''pens'' 201, Emergency_Budget_Increase (Finite 100) ''audit'',
      Purchase_Luxury_Item ''pens'' (Finite 5000) ''acme'' ''bulk''] \<and>
   remaining (COMPANY_BUDGET (run seeded (take 3
     [Purchase_Basic_Item ''pens'' 201, Emergency_Budget_Increase (Finite 100) ''audit'',
      Purchase_Luxury_Item ''pens'' (Finite 5000) ''acme'' ''bulk'']))) = Finite (6783 / 2) \<and>
   fle (Finite 0) (Finite (6783 / 2))"
proof -
  have h: "list_all increase_nonneg
     [Purchase_Basic_Item ''pens'' 201, Emergency_Budget_Increase (Finite 100) ''audit'',
      Purchase_Luxury_Item ''pens'' (Finite 5000) ''acme'' ''bulk'']"
    by simp
  have v: "remaining (COMPANY_BUDGET (run seeded
     [Purchase_Basic_Item ''pens'' 201, Emergency_Budget_Increase (Finite 100) ''audit'',
      Purchase_Luxury_Item ''pens'' (Finite 5000) ''acme'' ''bulk''])) = Finite (6783 / 2)"
    by (simp add: ledger_eval)
  from remaining_budget_never_negative[OF h, of 3] h v show ?thesis by simp
qed

text \<open>
  The claim as stated fails three times. 201 pens cost 1708.50, which the budget covers,
  and take the stock of pens from 200 to -1. An emergency increase by -6000 takes the
  remaining budget below 0. Buying \<open>- 2 ^ 1023\<close> paper clips and then \<open>2 ^ 1023\<close>
  takes the remaining budget to infinity and then to NaN, which is not at least 0.
\<close>

theorem stock_or_budget_negative_counterexample:
  "\<not> stocks_nonneg (INVENTORY (run seeded [Purchase_Basic_Item ''pens'' 201])) \<and>
   flt (remaining (COMPANY_BUDGET (run seeded
     [Emergency_Budget_Increase (Finite (- 6000)) ''audit'']))) (Finite 0) \<and>
   remaining (COMPANY_BUDGET (run seeded
     [Purchase_Basic_Item ''paper clips'' (- (2 ^ 1023)),
      Purchase_Basic_Item ''paper clips'' (2 ^ 1023)])) = NaN"
proof -
  have a: "\<not> stocks_nonneg (INVENTORY (run seeded [Purchase_Basic_Item ''pens'' 201]))"
    by (simp add: ledger_eval stocks_nonneg_def)
  have b: "flt (remaining (COMPANY_BUDGET (run seeded
     [Emergency_Budget_Increase (Finite (- 6000)) ''audit'']))) (Finite 0)"
    by (simp add: ledger_eval)
  have c: "remaining (COMPANY_BUDGET (run seeded
     [Purchase_Basic_Item ''paper clips'' (- (2 ^ 1023)),
      Purchase_Basic_Item ''paper clips'' (2 ^ 1023)])) = NaN"
    by (simp add: ledger_eval int_to_double_def rnd_PInf_I rnd_MInf_I float_overflow_def)
  show ?thesis using a b c by simp
qed

subsection \<open>The funds check is all or nothing\<close>

text \<open>
  Claim C2, as the code has it. For the catalog entry the lookup finds and a quantity
  that converts to a float, \<open>purchase_basic_item\<close> either finds that the remaining
  budget does not cover the cost, returns the insufficient-budget reply and leaves the
  whole ledger unchanged, or commits the debit and the stock decrement together: the
  remaining budget becomes the remaining budget minus the cost, the stock of that entry
  drops by the quantity, and nothing else changes. \<open>purchase_expensive_item\<close> does
  the same with the unit price and one unit, when the unit price is above 200 (at or
  below 200 it returns the redirect before any funds check). \<open>purchase_luxury_item\<close>
  does the same with the price it is given, except that its commit is the debit alone:
  it has no catalog entry and leaves the inventory unchanged. All amounts are floats.
\<close>

theorem funds_check_all_or_nothing:
  "(get_item (INVENTORY s) item = Some (key, info) \<and> int_to_double quantity = Some q \<longrightarrow>
      (\<not> fle (fmul q (price info)) (remaining (COMPANY_BUDGET s)) \<longrightarrow>
         purchase_basic_item s item quantity =
           (Insufficient_Budget (fmul q (price info)) (remaining (COMPANY_BUDGET s)), s)) \<and>
      (fle (fmul q (price info)) (remaining (COMPANY_BUDGET s)) \<longrightarrow>
         committed (fst (purchase_basic_item s item quantity)) \<and>
         remaining (COMPANY_BUDGET (snd (purchase_basic_item s item quantity))) =
           fsub (remaining (COMPANY_BUDGET s)) (fmul q (price info)) \<and>
         monthly_limit (COMPANY_BUDGET (snd (purchase_basic_item s item quantity))) =
           monthly_limit (COMPANY_BUDGET s) \<and>
         map_of (INVENTORY (snd (purchase_basic_item s item quantity))) key =
           Some (info\<lparr>stock := stock info - quantity\<rparr>) \<and>
         (\<forall>k. k \<noteq> key \<longrightarrow>
            map_of (INVENTORY (snd (purchase_basic_item s item quantity))) k =
            map_of (INVENTORY s) k) \<and>
         map fst (INVENTORY (snd (purchase_basic_item s item quantity))) =
           map fst (INVENTORY s))) \<and>
   (get_item (INVENTORY s) item = Some (key, info) \<and> \<not> fle (price info) (Finite 200) \<longrightarrow>
      (\<not> fle (price info) (remaining (COMPANY_BUDGET s)) \<longrightarrow>
         purchase_expensive_item s item justification =
           (Insufficient_Budget (price info) (remaining (COMPANY_BUDGET s)), s)) \<and>
      (fle (price info) (remaining (COMPANY_BUDGET s)) \<longrightarrow>
         committed (fst (purchase_expensive_item s item justification)) \<and>
         remaining (COMPANY_BUDGET (snd (purchase_expensive_item s item justification))) =
           fsub (remaining (COMPANY_BUDGET s)) (price info) \<and>
         monthly_limit (COMPANY_BUDGET (snd (purchase_expensive_item s item justification))) =
           monthly_limit (COMPANY_BUDGET s) \<and>
         map_of (INVENTORY (snd (purchase_expensive_item s item justification))) key =
           Some (info\<lparr>stock := stock info - 1\<rparr>) \<and>
         (\<forall>k. k \<noteq> key \<longrightarrow>
            map_of (INVENTORY (snd (purchase_expensive_item s item justification))) k =
            map_of (INVENTORY s) k) \<and>
         map fst (INVENTORY (snd (purchase_expensive_item s item justification))) =
           map fst (INVENTORY s))) \<and>
   (\<not> fle p (remaining (COMPANY_BUDGET s)) \<longrightarrow>
      purchase_luxury_item s item p vendor justification =
        (Insufficient_Budget_Luxury p (remaining (COMPANY_BUDGET s)), s)) \<and>
   (fle p (remaining (COMPANY_BUDGET s)) \<longrightarrow>
      committed (fst (purchase_luxury_item s item p vendor justification)) \<and>
      remaining (COMPANY_BUDGET (snd (purchase_luxury_item s item p vendor justification))) =
        fsub (remaining (COMPANY_BUDGET s)) p \<and>
      monthly_limit (COMPANY_BUDGET (snd (purchase_luxury_item s item p vendor justification))) =
        monthly_limit (COMPANY_BUDGET s) \<and>
      INVENTORY (snd (purchase_luxury_item s item p vendor justification)) = INVENTORY s)"
proof -
  have basic: "(\<not> fle (fmul q (price info)) (remaining (COMPANY_BUDGET s)) \<longrightarrow>
         purchase_basic_item s item quantity =
           (Insufficient_Budget (fmul q (price info)) (remaining (COMPANY_BUDGET s)), s)) \<and>
      (fle (fmul q (price info)) (remaining (COMPANY_BUDGET s)) \<longrightarrow>
         committed (fst (purchase_basic_item s item quantity)) \<and>
         remaining (COMPANY_BUDGET (snd (purchase_basic_item s item quantity))) =
           fsub (remaining (COMPANY_BUDGET s)) (fmul q (price info)) \<and>
         monthly_limit (COMPANY_BUDGET (snd (purchase_basic_item s item quantity))) =
           monthly_limit (COMPANY_BUDGET s) \<and>
         map_of (INVENTORY (snd (purchase_basic_item s item quantity))) key =
           Some (info\<lparr>stock := stock info - quantity\<rparr>) \<and>
         (\<forall>k. k \<noteq> key \<longrightarrow>
            map_of (INVENTORY (snd (purchase_basic_item s item quantity))) k =
            map_of (INVENTORY s) k) \<and>
         map fst (INVENTORY (snd (purchase_basic_item s item quantity))) =
           map fst (INVENTORY s))"
    if g: "get_item (INVENTORY s) item = Some (key, info)" and q: "int_to_double quantity = Some q"
  proof -
    have m: "map_of (INVENTORY s) key = Some info" using g by (rule get_item_map_of)
    show ?thesis
      by (simp add: purchase_basic_item_found[OF g] q map_of_stock_sub keys_stock_sub m)
  qed
  have expensive: "(\<not> fle (price info) (remaining (COMPANY_BUDGET s)) \<longrightarrow>
         purchase_expensive_item s item justification =
           (Insufficient_Budget (price info) (remaining (COMPANY_BUDGET s)), s)) \<and>
      (fle (price info) (remaining (COMPANY_BUDGET s)) \<longrightarrow>
         committed (fst (purchase_expensive_item s item justification)) \<and>
         remaining (COMPANY_BUDGET (snd (purchase_expensive_item s item justification))) =
           fsub (remaining (COMPANY_BUDGET s)) (price info) \<and>
         monthly_limit (COMPANY_BUDGET (snd (purchase_expensive_item s item justification))) =
           monthly_limit (COMPANY_BUDGET s) \<and>
         map_of (INVENTORY (snd (purchase_expensive_item s item justification))) key =
           Some (info\<lparr>stock := stock info - 1\<rparr>) \<and>
         (\<forall>k. k \<noteq> key \<longrightarrow>
            map_of (INVENTORY (snd (purchase_expensive_item s item justification))) k =
            map_of (INVENTORY s) k) \<and>
         map fst (INVENTORY (snd (purchase_expensive_item s item justification))) =
           map fst (INVENTORY s))"
    if g: "get_item (INVENTORY s) item = Some (key, info)"
      and c: "\<not> fle (price info) (Finite 200)"
  proof -
    have m: "map_of (INVENTORY s) key = Some info" using g by (rule get_item_map_of)
    show ?thesis
      by (simp add: purchase_expensive_item_found[OF g] c map_of_stock_sub keys_stock_sub m)
  qed
  have luxury: "(\<not> fle p (remaining (COMPANY_BUDGET s)) \<longrightarrow>
      purchase_luxury_item s item p vendor justification =
        (Insufficient_Budget_Luxury p (remaining (COMPANY_BUDGET s)), s)) \<and>
   (fle p (remaining (COMPANY_BUDGET s)) \<longrightarrow>
      committed (fst (purchase_luxury_item s item p vendor justification)) \<and>
      remaining (COMPANY_BUDGET (snd (purchase_luxury_item s item p vendor justification))) =
        fsub (remaining (COMPANY_BUDGET s)) p \<and>
      monthly_limit (COMPANY_BUDGET (snd (purchase_luxury_item s item p vendor justification))) =
        monthly_limit (COMPANY_BUDGET s) \<and>
      INVENTORY (snd (purchase_luxury_item s item p vendor justification)) = INVENTORY s)"
    by (simp add: purchase_luxury_item_def Let_def)
  from basic expensive luxury show ?thesis by blast
qed

text \<open>
  Standing desks on the seeded ledger (every funds check passes) and on a ledger with
  250 remaining (the funds checks of the expensive and the luxury purchase fail); and eleven paper clips at 12.99 against a
  remaining budget of 142.89, which the float product exceeds.
\<close>

theorem funds_check_all_or_nothing_witness:
  "get_item (INVENTORY seeded) ''standing desks'' =
     Some (''standing desks'', \<lparr>stock = 8, price = rnd 299.99\<rparr>) \<and>
   rnd 299.99 = Finite (1319369972866089 / 4398046511104) \<and>
   fst (purchase_basic_item seeded ''standing desks'' 2) =
     Purchased 2 ''standing desks'' (Finite (1319369972866089 / 2199023255552))
       (Finite (1209468288111739 / 274877906944)) \<and>
   remaining (COMPANY_BUDGET (snd (purchase_basic_item seeded ''standing desks'' 2))) =
     Finite (1209468288111739 / 274877906944) \<and>
   \<bar>1209468288111739 / 274877906944 - (4400.02 :: rat)\<bar> \<le> 1 / 10 ^ 12 \<and>
   map_of (INVENTORY (snd (purchase_basic_item seeded ''standing desks'' 2))) ''standing desks'' =
     Some \<lparr>stock = 6, price = rnd 299.99\<rparr> \<and>
   remaining (COMPANY_BUDGET (snd (purchase_expensive_item seeded ''standing desks''
     ''posture''))) = Finite (2583857822831739 / 549755813888) \<and>
   map_of (INVENTORY (snd (purchase_expensive_item seeded ''standing desks'' ''posture'')))
     ''standing desks'' = Some \<lparr>stock = 7, price = rnd 299.99\<rparr> \<and>
   snd (purchase_luxury_item seeded ''standing desks'' (Finite 300) ''acme'' ''posture'') =
     seeded\<lparr>COMPANY_BUDGET := \<lparr>remaining = Finite 4700, monthly_limit = Finite 5000\<rparr>\<rparr> \<and>
   purchase_basic_item
       (seeded\<lparr>COMPANY_BUDGET := \<lparr>remaining = rnd 142.89, monthly_limit = Finite 5000\<rparr>\<rparr>)
       ''paper clips'' 11 =
     (Insufficient_Budget (Finite (5027494927773205 / 35184372088832))
        (Finite (1256873731943301 / 8796093022208)),
      seeded\<lparr>COMPANY_BUDGET := \<lparr>remaining = rnd 142.89, monthly_limit = Finite 5000\<rparr>\<rparr>) \<and>
   purchase_expensive_item
       (seeded\<lparr>COMPANY_BUDGET := \<lparr>remaining = Finite 250, monthly_limit = Finite 5000\<rparr>\<rparr>)
       ''standing desks'' ''posture'' =
     (Insufficient_Budget (Finite (1319369972866089 / 4398046511104)) (Finite 250),
      seeded\<lparr>COMPANY_BUDGET := \<lparr>remaining = Finite 250, monthly_limit = Finite 5000\<rparr>\<rparr>) \<and>
   purchase_luxury_item
       (seeded\<lparr>COMPANY_BUDGET := \<lparr>remaining = Finite 250, monthly_limit = Finite 5000\<rparr>\<rparr>)
       ''standing desks'' (Finite 300) ''acme'' ''posture'' =
     (Insufficient_Budget_Luxury (Finite 300) (Finite 250),
      seeded\<lparr>COMPANY_BUDGET := \<lparr>remaining = Finite 250, monthly_limit = Finite 5000\<rparr>\<rparr>)"
proof -
  let ?low = "seeded\<lparr>COMPANY_BUDGET := \<lparr>remaining = Finite 250, monthly_limit = Finite 5000\<rparr>\<rparr>"
  let ?tight = "seeded\<lparr>COMPANY_BUDGET := \<lparr>remaining = rnd 142.89, monthly_limit = Finite 5000\<rparr>\<rparr>"
  have g: "get_item (INVENTORY seeded) ''standing desks'' =
      Some (''standing desks'', \<lparr>stock = 8, price = rnd 299.99\<rparr>)"
    by (simp add: get_item_def item_matches_def seeded_def INVENTORY_seed_def normalised)
  then have g': "get_item (INVENTORY ?low) ''standing desks'' =
      Some (''standing desks'', \<lparr>stock = 8, price = rnd 299.99\<rparr>)"
    by simp
  have c: "get_item (INVENTORY ?tight) ''paper clips'' =
      Some (''paper clips'', \<lparr>stock = 500, price = rnd 12.99\<rparr>)"
    by (simp add: get_item_def item_matches_def seeded_def INVENTORY_seed_def normalised)
  have q2: "int_to_double 2 = Some (Finite 2)" and q11: "int_to_double 11 = Some (Finite 11)"
    by (simp_all add: int_to_double_small)
  have full: "purchase_basic_item seeded ''standing desks'' 2 =
      (fst (purchase_basic_item seeded ''standing desks'' 2),
       snd (purchase_basic_item seeded ''standing desks'' 2))"
    by simp
  have reply: "fst (purchase_basic_item seeded ''standing desks'' 2) =
     Purchased 2 ''standing desks'' (Finite (1319369972866089 / 2199023255552))
       (Finite (1209468288111739 / 274877906944))"
    by (simp add: purchase_basic_item_found[OF g] q2 seeded_budget roundings)
  have lux: "snd (purchase_luxury_item seeded ''standing desks'' (Finite 300) ''acme'' ''posture'') =
     seeded\<lparr>COMPANY_BUDGET := \<lparr>remaining = Finite 4700, monthly_limit = Finite 5000\<rparr>\<rparr>"
    by (simp add: purchase_luxury_item_def Let_def seeded_budget roundings)
  from funds_check_all_or_nothing
         [where s = seeded and item = "''standing desks''" and key = "''standing desks''"
            and info = "\<lparr>stock = 8, price = rnd 299.99\<rparr>" and quantity = 2
            and q = "Finite 2" and p = "Finite 300"
            and vendor = "''acme''" and justification = "''posture''"]
       funds_check_all_or_nothing
         [where s = ?low and item = "''standing desks''" and key = "''standing desks''"
            and info = "\<lparr>stock = 8, price = rnd 299.99\<rparr>" and quantity = 2
            and q = "Finite 2" and p = "Finite 300"
            and vendor = "''acme''" and justification = "''posture''"]
       funds_check_all_or_nothing
         [where s = ?tight and item = "''paper clips''" and key = "''paper clips''"
            and info = "\<lparr>stock = 500, price = rnd 12.99\<rparr>" and quantity = 11
            and q = "Finite 11" and p = "Finite 300"
            and vendor = "''acme''" and justification = "''posture''"]
       g g' c q2 q11 seeded_budget reply lux
  show ?thesis by (simp add: roundings)
qed

text \<open>
  The claim as stated expects a stock decrement with every commit and the
  insufficient-funds reply whenever the cost exceeds the remaining budget. A luxury
  purchase named after a catalog item passes the funds check and debits, and no stock
  changes. With 100 remaining, \<open>purchase_expensive_item\<close> for desk chairs at 149.99
  returns the redirect, not the insufficient-funds reply.
\<close>

theorem luxury_and_redirect_counterexample:
  "committed (fst (purchase_luxury_item seeded ''pens'' (Finite 10) ''acme'' ''spare'')) \<and>
   remaining (COMPANY_BUDGET (snd (purchase_luxury_item seeded ''pens'' (Finite 10) ''acme''
     ''spare''))) = Finite 4990 \<and>
   INVENTORY (snd (purchase_luxury_item seeded ''pens'' (Finite 10) ''acme'' ''spare'')) =
     INVENTORY seeded \<and>
   remaining (COMPANY_BUDGET (snd (purchase_luxury_item seeded ''yacht'' (Finite 4900) ''acme''
     ''clients''))) = Finite 100 \<and>
   \<not> fle (rnd 149.99) (Finite 100) \<and>
   fst (purchase_expensive_item
     (snd (purchase_luxury_item seeded ''yacht'' (Finite 4900) ''acme'' ''clients''))
     ''desk chairs'' ''seating'') = Use_Basic_Instead ''desk chairs'' (rnd 149.99)"
  by (simp add: ledger_eval)

subsection \<open>Buying the executive desk twice\<close>

text \<open>
  Claim C3, as the code has it. From the seeded ledger the first
  \<open>purchase_expensive_item\<close> for the executive desk commits and leaves the float
  nearest to 2500.01 and a stock of 0. The second call is committed as well, because only
  the funds are checked: it debits the price again, leaving a float that prints as 0.02,
  and takes the stock to -1.
\<close>

theorem second_executive_desk_is_committed:
  "rnd 2499.99 = Finite (1374384037161861 / 549755813888) \<and>
   rnd 2500.01 = Finite (1374395032278139 / 549755813888) \<and>
   fst (purchase_expensive_item seeded ''executive desk'' j1) =
     Purchased_Expensive ''executive desk'' (Finite (1374384037161861 / 549755813888)) j1
       (Finite (1374395032278139 / 549755813888)) \<and>
   remaining (COMPANY_BUDGET (snd (purchase_expensive_item seeded ''executive desk'' j1))) =
     Finite (1374395032278139 / 549755813888) \<and>
   map_of (INVENTORY (snd (purchase_expensive_item seeded ''executive desk'' j1)))
     ''executive desk'' = Some \<lparr>stock = 0, price = Finite (1374384037161861 / 549755813888)\<rparr> \<and>
   fst (purchase_expensive_item (snd (purchase_expensive_item seeded ''executive desk'' j1))
     ''executive desk'' j2) =
     Purchased_Expensive ''executive desk'' (Finite (1374384037161861 / 549755813888)) j2
       (Finite (5497558139 / 274877906944)) \<and>
   remaining (COMPANY_BUDGET (snd (purchase_expensive_item
     (snd (purchase_expensive_item seeded ''executive desk'' j1)) ''executive desk'' j2))) =
     Finite (5497558139 / 274877906944) \<and>
   \<bar>5497558139 / 274877906944 - (0.02 :: rat)\<bar> \<le> 1 / 10 ^ 12 \<and>
   map_of (INVENTORY (snd (purchase_expensive_item
     (snd (purchase_expensive_item seeded ''executive desk'' j1)) ''executive desk'' j2)))
     ''executive desk'' = Some \<lparr>stock = - 1, price = Finite (1374384037161861 / 549755813888)\<rparr>"
  by (simp add: ledger_eval)

text \<open>
  The claim as stated expects the second call to be rejected as not found and the
  budget to stay at 2500.01.
\<close>

theorem second_executive_desk_counterexample:
  "remaining (COMPANY_BUDGET (snd (purchase_expensive_item seeded ''executive desk'' ''first''))) =
     rnd 2500.01 \<and>
   purchase_expensive_item
     (snd (purchase_expensive_item seeded ''executive desk'' ''first''))
     ''executive desk'' ''second'' \<noteq>
   (Not_Found ''executive desk'', snd (purchase_expensive_item seeded ''executive desk'' ''first'')) \<and>
   remaining (COMPANY_BUDGET (snd (purchase_expensive_item
     (snd (purchase_expensive_item seeded ''executive desk'' ''first''))
     ''executive desk'' ''second''))) \<noteq> rnd 2500.01"
  by (simp add: ledger_eval)

subsection \<open>Negative quantities and prices\<close>

text \<open>
  Claim C4, as the code has it. No tool validates its parameters. On a representable
  remaining budget of at least 0, \<open>purchase_basic_item\<close> with a negative quantity of
  magnitude at most \<open>2 ^ 1023\<close>, on an entry of non-negative price, passes the funds check
  and commits: the remaining budget becomes the remaining budget minus the (non-positive)
  cost, which is not below what it was, and the stock of the entry rises by the absolute
  quantity. A quantity too large to convert to a float raises \<^verbatim>\<open>OverflowError\<close> and
  nothing is changed. \<open>purchase_luxury_item\<close> with a negative price commits likewise;
  the inventory is unchanged.
\<close>

theorem negative_parameters_are_committed:
  "(get_item (INVENTORY s) item = Some (key, info) \<and> quantity < 0 \<and> - (2 ^ 1023) \<le> quantity \<and>
    fle (Finite 0) (price info) \<and> fle (Finite 0) (remaining (COMPANY_BUDGET s)) \<and>
    representable (remaining (COMPANY_BUDGET s)) \<longrightarrow>
      (\<exists>q. int_to_double quantity = Some q \<and> flt q (Finite 0) \<and>
         committed (fst (purchase_basic_item s item quantity)) \<and>
         remaining (COMPANY_BUDGET (snd (purchase_basic_item s item quantity))) =
           fsub (remaining (COMPANY_BUDGET s)) (fmul q (price info)) \<and>
         fle (remaining (COMPANY_BUDGET s))
           (remaining (COMPANY_BUDGET (snd (purchase_basic_item s item quantity)))) \<and>
         map_of (INVENTORY (snd (purchase_basic_item s item quantity))) key =
           Some (info\<lparr>stock := stock info - quantity\<rparr>) \<and>
         stock info < stock info - quantity)) \<and>
   (get_item (INVENTORY s) item = Some (key, info) \<and> int_to_double quantity = None \<longrightarrow>
      purchase_basic_item s item quantity = (Overflow_Error, s)) \<and>
   (flt p (Finite 0) \<and> fle (Finite 0) (remaining (COMPANY_BUDGET s)) \<and>
    representable (remaining (COMPANY_BUDGET s)) \<longrightarrow>
      committed (fst (purchase_luxury_item s item p vendor justification)) \<and>
      remaining (COMPANY_BUDGET (snd (purchase_luxury_item s item p vendor justification))) =
        fsub (remaining (COMPANY_BUDGET s)) p \<and>
      fle (remaining (COMPANY_BUDGET s))
        (remaining (COMPANY_BUDGET (snd (purchase_luxury_item s item p vendor justification)))) \<and>
      INVENTORY (snd (purchase_luxury_item s item p vendor justification)) = INVENTORY s)"
proof -
  let ?r = "remaining (COMPANY_BUDGET s)"
  have basic: "\<exists>q. int_to_double quantity = Some q \<and> flt q (Finite 0) \<and>
         committed (fst (purchase_basic_item s item quantity)) \<and>
         remaining (COMPANY_BUDGET (snd (purchase_basic_item s item quantity))) =
           fsub ?r (fmul q (price info)) \<and>
         fle ?r (remaining (COMPANY_BUDGET (snd (purchase_basic_item s item quantity)))) \<and>
         map_of (INVENTORY (snd (purchase_basic_item s item quantity))) key =
           Some (info\<lparr>stock := stock info - quantity\<rparr>) \<and>
         stock info < stock info - quantity"
    if g: "get_item (INVENTORY s) item = Some (key, info)" and neg: "quantity < 0"
      and bound: "- (2 ^ 1023) \<le> quantity" and p0: "fle (Finite 0) (price info)"
      and r0: "fle (Finite 0) ?r" and rep: "representable ?r"
  proof -
    from neg bound have "\<bar>quantity\<bar> \<le> 2 ^ 1023" by simp
    from int_to_double_bounded[OF this] obtain y where q: "int_to_double quantity = Some (Finite y)"
      by blast
    from int_to_double_neg[OF q neg] have y: "y < 0" by simp
    from fmul_neg_finite[OF y p0] have c0: "fle (fmul (Finite y) (price info)) (Finite 0)" .
    from fsub_credit[OF rep r0 c0]
    have pass: "fle (fmul (Finite y) (price info)) ?r"
      and up: "fle ?r (fsub ?r (fmul (Finite y) (price info)))" by simp_all
    have m: "map_of (INVENTORY s) key = Some info" using g by (rule get_item_map_of)
    have "flt (Finite y) (Finite 0) \<and>
         committed (fst (purchase_basic_item s item quantity)) \<and>
         remaining (COMPANY_BUDGET (snd (purchase_basic_item s item quantity))) =
           fsub ?r (fmul (Finite y) (price info)) \<and>
         fle ?r (remaining (COMPANY_BUDGET (snd (purchase_basic_item s item quantity)))) \<and>
         map_of (INVENTORY (snd (purchase_basic_item s item quantity))) key =
           Some (info\<lparr>stock := stock info - quantity\<rparr>) \<and>
         stock info < stock info - quantity"
      using y pass up neg by (simp add: purchase_basic_item_found[OF g] q map_of_stock_sub m)
    with q show ?thesis by blast
  qed
  have overflow: "purchase_basic_item s item quantity = (Overflow_Error, s)"
    if g: "get_item (INVENTORY s) item = Some (key, info)" and "int_to_double quantity = None"
    using that by (simp add: purchase_basic_item_found[OF g])
  have luxury: "committed (fst (purchase_luxury_item s item p vendor justification)) \<and>
      remaining (COMPANY_BUDGET (snd (purchase_luxury_item s item p vendor justification))) =
        fsub ?r p \<and>
      fle ?r (remaining (COMPANY_BUDGET (snd (purchase_luxury_item s item p vendor justification)))) \<and>
      INVENTORY (snd (purchase_luxury_item s item p vendor justification)) = INVENTORY s"
    if p: "flt p (Finite 0)" and r0: "fle (Finite 0) ?r" and rep: "representable ?r"
  proof -
    from p have "fle p (Finite 0)" by (cases p) simp_all
    from fsub_credit[OF rep r0 this] show ?thesis
      by (simp add: purchase_luxury_item_def Let_def)
  qed
  from basic overflow luxury show ?thesis by blast
qed

text \<open>
  Minus two staplers, a quantity of \<open>- 10 ^ 309\<close>, and a luxury item at minus 7 on the
  seeded ledger.
\<close>

theorem negative_parameters_are_committed_witness:
  "get_item (INVENTORY seeded) ''staplers'' =
     Some (''staplers'', \<lparr>stock = 50, price = rnd 24.99\<rparr>) \<and>
   fle (Finite 0) (rnd 24.99) \<and> representable (remaining (COMPANY_BUDGET seeded)) \<and>
   int_to_double (- 2) = Some (Finite (- 2)) \<and>
   remaining (COMPANY_BUDGET (snd (purchase_basic_item seeded ''staplers'' (- 2)))) =
     Finite (1388127932509061 / 274877906944) \<and>
   \<bar>1388127932509061 / 274877906944 - (5049.98 :: rat)\<bar> \<le> 1 / 10 ^ 12 \<and>
   map_of (INVENTORY (snd (purchase_basic_item seeded ''staplers'' (- 2)))) ''staplers'' =
     Some \<lparr>stock = 52, price = rnd 24.99\<rparr> \<and>
   int_to_double (- (10 ^ 309)) = None \<and>
   purchase_basic_item seeded ''staplers'' (- (10 ^ 309)) = (Overflow_Error, seeded) \<and>
   remaining (COMPANY_BUDGET (snd (purchase_luxury_item seeded ''staplers'' (Finite (- 7)) ''acme''
     ''rebate''))) = Finite 5007"
proof -
  have g: "get_item (INVENTORY seeded) ''staplers'' =
      Some (''staplers'', \<lparr>stock = 50, price = rnd 24.99\<rparr>)"
    by (simp add: get_item_def item_matches_def seeded_def INVENTORY_seed_def normalised)
  have q: "int_to_double (- 2) = Some (Finite (- 2))" by (simp add: int_to_double_small)
  have o: "int_to_double (- (10 ^ 309)) = None"
    by (simp add: int_to_double_def rnd_MInf_I float_overflow_def)
  from negative_parameters_are_committed
         [where s = seeded and item = "''staplers''" and key = "''staplers''"
            and info = "\<lparr>stock = 50, price = rnd 24.99\<rparr>" and quantity = "- 2"
            and p = "Finite (- 7)" and vendor = "''acme''" and justification = "''rebate''"]
       negative_parameters_are_committed
         [where s = seeded and item = "''staplers''" and key = "''staplers''"
            and info = "\<lparr>stock = 50, price = rnd 24.99\<rparr>" and quantity = "- (10 ^ 309)"
            and p = "Finite (- 7)" and vendor = "''acme''" and justification = "''rebate''"]
       g q o seeded_budget
  show ?thesis by (simp add: roundings rnd_uminus)
qed

text \<open>
  The claim as stated expects both calls to leave the ledger unchanged. Minus three pens
  are committed, with 5025.50 remaining and 203 in stock; a luxury item at minus 40 is
  committed, with 5040 remaining.
\<close>

theorem negative_parameters_counterexample:
  "snd (purchase_basic_item seeded ''pens'' (- 3)) \<noteq> seeded \<and>
   fst (purchase_basic_item seeded ''pens'' (- 3)) =
     Purchased (- 3) ''pens'' (Finite (- (51 / 2))) (Finite (10051 / 2)) \<and>
   map_of (INVENTORY (snd (purchase_basic_item seeded ''pens'' (- 3)))) ''pens'' =
     Some \<lparr>stock = 203, price = Finite (17 / 2)\<rparr> \<and>
   snd (purchase_luxury_item seeded ''throne'' (Finite (- 40)) ''acme'' ''refund'') \<noteq> seeded \<and>
   fst (purchase_luxury_item seeded ''throne'' (Finite (- 40)) ''acme'' ''refund'') =
     Purchased_Luxury ''throne'' ''acme'' (Finite (- 40)) ''refund'' (Finite 5040)"
proof -
  have a: "fst (purchase_basic_item seeded ''pens'' (- 3)) =
     Purchased (- 3) ''pens'' (Finite (- (51 / 2))) (Finite (10051 / 2))"
    by (simp add: ledger_eval)
  have b: "map_of (INVENTORY (snd (purchase_basic_item seeded ''pens'' (- 3)))) ''pens'' =
     Some \<lparr>stock = 203, price = Finite (17 / 2)\<rparr>"
    by (simp add: ledger_eval)
  have c: "fst (purchase_luxury_item seeded ''throne'' (Finite (- 40)) ''acme'' ''refund'') =
     Purchased_Luxury ''throne'' ''acme'' (Finite (- 40)) ''refund'' (Finite 5040)"
    by (simp add: ledger_eval)
  have d: "remaining (COMPANY_BUDGET (snd (purchase_luxury_item seeded ''throne'' (Finite (- 40))
      ''acme'' ''refund''))) = Finite 5040"
    by (simp add: ledger_eval)
  have s: "map_of (INVENTORY seeded) ''pens'' = Some \<lparr>stock = 200, price = Finite (17 / 2)\<rparr>"
    by (simp add: ledger_eval)
  from b s have "snd (purchase_basic_item seeded ''pens'' (- 3)) \<noteq> seeded" by auto
  moreover from d seeded_budget
  have "snd (purchase_luxury_item seeded ''throne'' (Finite (- 40)) ''acme'' ''refund'') \<noteq> seeded"
    by auto
  ultimately show ?thesis using a b c by simp
qed

subsection \<open>Submitting the same purchase twice\<close>

text \<open>
  Claim C5, as the code has it. The tools keep no record of earlier requests. An
  identical \<open>purchase_basic_item\<close> call made a second time is a new call on the
  current ledger: when the funds check passes both times, both calls commit, the cost is
  subtracted from the remaining budget twice and the stock is lowered twice. For a
  quantity other than 0 the second call changes the inventory again.
\<close>

theorem repeated_purchase_applies_again:
  assumes "get_item (INVENTORY s) item = Some (key, info)"
    and "int_to_double quantity = Some q"
    and "fle (fmul q (price info)) (remaining (COMPANY_BUDGET s))"
    and "fle (fmul q (price info))
           (fsub (remaining (COMPANY_BUDGET s)) (fmul q (price info)))"
  shows
    "fst (purchase_basic_item s item quantity) =
       Purchased quantity item (fmul q (price info))
         (fsub (remaining (COMPANY_BUDGET s)) (fmul q (price info))) \<and>
     fst (purchase_basic_item (snd (purchase_basic_item s item quantity)) item quantity) =
       Purchased quantity item (fmul q (price info))
         (fsub (fsub (remaining (COMPANY_BUDGET s)) (fmul q (price info)))
            (fmul q (price info))) \<and>
     remaining (COMPANY_BUDGET (run s
         [Purchase_Basic_Item item quantity, Purchase_Basic_Item item quantity])) =
       fsub (fsub (remaining (COMPANY_BUDGET s)) (fmul q (price info))) (fmul q (price info)) \<and>
     map_of (INVENTORY (run s [Purchase_Basic_Item item quantity])) key =
       Some (info\<lparr>stock := stock info - quantity\<rparr>) \<and>
     map_of (INVENTORY (run s
         [Purchase_Basic_Item item quantity, Purchase_Basic_Item item quantity])) key =
       Some (info\<lparr>stock := stock info - 2 * quantity\<rparr>) \<and>
     (quantity \<noteq> 0 \<longrightarrow>
        INVENTORY (run s [Purchase_Basic_Item item quantity, Purchase_Basic_Item item quantity]) \<noteq>
        INVENTORY (run s [Purchase_Basic_Item item quantity]))"
proof -
  let ?r = "remaining (COMPANY_BUDGET s)"
  let ?cost = "fmul q (price info)"
  let ?s1 = "s\<lparr>COMPANY_BUDGET := (COMPANY_BUDGET s)\<lparr>remaining := fsub ?r ?cost\<rparr>,
               INVENTORY := stock_sub key quantity (INVENTORY s)\<rparr>"
  let ?info1 = "info\<lparr>stock := stock info - quantity\<rparr>"
  have first: "purchase_basic_item s item quantity =
      (Purchased quantity item ?cost (fsub ?r ?cost), ?s1)"
    using assms(2,3) by (simp add: purchase_basic_item_found[OF assms(1)])
  have g1: "get_item (INVENTORY ?s1) item = Some (key, ?info1)"
    using get_item_stock_sub[OF assms(1), of quantity] by simp
  have second: "purchase_basic_item ?s1 item quantity =
      (Purchased quantity item ?cost (fsub (fsub ?r ?cost) ?cost),
       ?s1\<lparr>COMPANY_BUDGET := (COMPANY_BUDGET ?s1)\<lparr>remaining := fsub (fsub ?r ?cost) ?cost\<rparr>,
            INVENTORY := stock_sub key quantity (INVENTORY ?s1)\<rparr>)"
    using assms(2,4) by (subst purchase_basic_item_found[OF g1]) simp
  have m: "map_of (INVENTORY s) key = Some info"
    using assms(1) by (rule get_item_map_of)
  have one: "map_of (INVENTORY (run s [Purchase_Basic_Item item quantity])) key = Some ?info1"
    unfolding run.simps call.simps first snd_conv by (simp add: map_of_stock_sub m)
  have two: "map_of (INVENTORY (run s
      [Purchase_Basic_Item item quantity, Purchase_Basic_Item item quantity])) key =
      Some (info\<lparr>stock := stock info - 2 * quantity\<rparr>)"
    unfolding run.simps call.simps first second snd_conv by (simp add: map_of_stock_sub m)
  have differ: "INVENTORY (run s
      [Purchase_Basic_Item item quantity, Purchase_Basic_Item item quantity]) \<noteq>
      INVENTORY (run s [Purchase_Basic_Item item quantity])" if "quantity \<noteq> 0"
  proof
    assume "INVENTORY (run s
      [Purchase_Basic_Item item quantity, Purchase_Basic_Item item quantity]) =
      INVENTORY (run s [Purchase_Basic_Item item quantity])"
    with one two have "info\<lparr>stock := stock info - 2 * quantity\<rparr> = ?info1" by simp
    then have "stock (info\<lparr>stock := stock info - 2 * quantity\<rparr>) = stock ?info1" by simp
    with that show False by simp
  qed
  have rem: "remaining (COMPANY_BUDGET (run s
      [Purchase_Basic_Item item quantity, Purchase_Basic_Item item quantity])) =
      fsub (fsub ?r ?cost) ?cost"
    unfolding run.simps call.simps first second snd_conv by simp
  show ?thesis
    using one two differ rem unfolding first second fst_conv snd_conv by simp
qed

text \<open>
  Two coffees, twice, on the seeded ledger.
\<close>

theorem repeated_purchase_applies_again_witness:
  "get_item (INVENTORY seeded) ''coffee'' = Some (''coffee'', \<lparr>stock = 30, price = rnd 15.99\<rparr>) \<and>
   int_to_double 2 = Some (Finite 2) \<and>
   fmul (Finite 2) (rnd 15.99) = Finite (9001569755206779 / 281474976710656) \<and>
   fle (Finite (9001569755206779 / 281474976710656)) (remaining (COMPANY_BUDGET seeded)) \<and>
   fsub (remaining (COMPANY_BUDGET seeded)) (Finite (9001569755206779 / 281474976710656)) =
     Finite (1365598939255931 / 274877906944) \<and>
   remaining (COMPANY_BUDGET (run seeded
     [Purchase_Basic_Item ''coffee'' 2, Purchase_Basic_Item ''coffee'' 2])) =
     Finite (678404171895931 / 137438953472) \<and>
   \<bar>678404171895931 / 137438953472 - (4936.04 :: rat)\<bar> \<le> 1 / 10 ^ 11 \<and>
   map_of (INVENTORY (run seeded
     [Purchase_Basic_Item ''coffee'' 2, Purchase_Basic_Item ''coffee'' 2])) ''coffee'' =
     Some \<lparr>stock = 26, price = rnd 15.99\<rparr>"
proof -
  have g: "get_item (INVENTORY seeded) ''coffee'' = Some (''coffee'', \<lparr>stock = 30, price = rnd 15.99\<rparr>)"
    by (simp add: get_item_def item_matches_def seeded_def INVENTORY_seed_def normalised)
  have q: "int_to_double 2 = Some (Finite 2)" by (simp add: int_to_double_small)
  have a: "fle (fmul (Finite 2) (price \<lparr>stock = 30, price = rnd 15.99\<rparr>))
      (remaining (COMPANY_BUDGET seeded))"
    by (simp add: seeded_budget roundings)
  have b: "fle (fmul (Finite 2) (price \<lparr>stock = 30, price = rnd 15.99\<rparr>))
      (fsub (remaining (COMPANY_BUDGET seeded))
         (fmul (Finite 2) (price \<lparr>stock = 30, price = rnd 15.99\<rparr>)))"
    by (simp add: seeded_budget roundings)
  from repeated_purchase_applies_again[OF g q a b] g q seeded_budget
  show ?thesis by (simp add: roundings)
qed

text \<open>
  The claim as stated expects the second delivery to return the first reply and to
  mutate nothing. Ten pens ordered twice are debited twice, are reported with 4915 and
  then 4830 remaining, and leave 180 in stock.
\<close>

theorem redelivery_counterexample:
  "fst (purchase_basic_item seeded ''pens'' 10) =
     Purchased 10 ''pens'' (Finite 85) (Finite 4915) \<and>
   fst (purchase_basic_item (snd (purchase_basic_item seeded ''pens'' 10)) ''pens'' 10) =
     Purchased 10 ''pens'' (Finite 85) (Finite 4830) \<and>
   remaining (COMPANY_BUDGET (run seeded
     [Purchase_Basic_Item ''pens'' 10, Purchase_Basic_Item ''pens'' 10])) = Finite 4830 \<and>
   map_of (INVENTORY (run seeded [Purchase_Basic_Item ''pens'' 10, Purchase_Basic_Item ''pens'' 10]))
     ''pens'' = Some \<lparr>stock = 180, price = Finite (17 / 2)\<rparr>"
  by (simp add: ledger_eval)

subsection \<open>What each operation may change in the budget\<close>

text \<open>
  Claim C7, as the code has it. \<open>emergency_budget_increase\<close> replaces the remaining
  budget and the monthly limit by their float sums with the amount and changes nothing
  else. Every purchase leaves the monthly limit unchanged, and leaves the remaining
  budget as it was or replaces it by the remaining budget minus its cost: the cost is
  the quantity times the unit price of the entry found, the unit price, or the price
  given, and the debit happens exactly when the funds check passes. On a representable
  remaining budget and a catalog of non-negative prices, the remaining budget does not
  rise under \<open>purchase_expensive_item\<close>, nor under \<open>purchase_basic_item\<close> with a
  non-negative quantity, nor under \<open>purchase_luxury_item\<close> with a price that is not
  negative.
\<close>

theorem budget_frame:
  "snd (emergency_budget_increase s amount reason) =
     s\<lparr>COMPANY_BUDGET :=
         \<lparr>remaining = fadd (remaining (COMPANY_BUDGET s)) amount,
          monthly_limit = fadd (monthly_limit (COMPANY_BUDGET s)) amount\<rparr>\<rparr> \<and>
   monthly_limit (COMPANY_BUDGET (snd (purchase_basic_item s item quantity))) =
     monthly_limit (COMPANY_BUDGET s) \<and>
   monthly_limit (COMPANY_BUDGET (snd (purchase_expensive_item s item justification))) =
     monthly_limit (COMPANY_BUDGET s) \<and>
   monthly_limit (COMPANY_BUDGET (snd (purchase_luxury_item s item p vendor justification))) =
     monthly_limit (COMPANY_BUDGET s) \<and>
   remaining (COMPANY_BUDGET (snd (purchase_basic_item s item quantity))) =
     (case get_item (INVENTORY s) item of
        None \<Rightarrow> remaining (COMPANY_BUDGET s)
      | Some (key, info) \<Rightarrow>
          (case int_to_double quantity of
             None \<Rightarrow> remaining (COMPANY_BUDGET s)
           | Some q \<Rightarrow>
               if fle (fmul q (price info)) (remaining (COMPANY_BUDGET s))
               then fsub (remaining (COMPANY_BUDGET s)) (fmul q (price info))
               else remaining (COMPANY_BUDGET s))) \<and>
   remaining (COMPANY_BUDGET (snd (purchase_expensive_item s item justification))) =
     (case get_item (INVENTORY s) item of
        None \<Rightarrow> remaining (COMPANY_BUDGET s)
      | Some (key, info) \<Rightarrow>
          if fle (price info) (Finite 200) then remaining (COMPANY_BUDGET s)
          else if fle (price info) (remaining (COMPANY_BUDGET s))
          then fsub (remaining (COMPANY_BUDGET s)) (price info)
          else remaining (COMPANY_BUDGET s)) \<and>
   remaining (COMPANY_BUDGET (snd (purchase_luxury_item s item p vendor justification))) =
     (if fle p (remaining (COMPANY_BUDGET s)) then fsub (remaining (COMPANY_BUDGET s)) p
      else remaining (COMPANY_BUDGET s)) \<and>
   (representable (remaining (COMPANY_BUDGET s)) \<and> prices_nonneg (INVENTORY s) \<longrightarrow>
      (0 \<le> quantity \<longrightarrow>
         \<not> flt (remaining (COMPANY_BUDGET s))
               (remaining (COMPANY_BUDGET (snd (purchase_basic_item s item quantity))))) \<and>
      \<not> flt (remaining (COMPANY_BUDGET s))
            (remaining (COMPANY_BUDGET (snd (purchase_expensive_item s item justification)))) \<and>
      (\<not> flt p (Finite 0) \<longrightarrow>
         \<not> flt (remaining (COMPANY_BUDGET s))
               (remaining (COMPANY_BUDGET
                  (snd (purchase_luxury_item s item p vendor justification))))))"
proof -
  let ?r = "remaining (COMPANY_BUDGET s)"
  have inc: "snd (emergency_budget_increase s amount reason) =
     s\<lparr>COMPANY_BUDGET :=
         \<lparr>remaining = fadd ?r amount,
          monthly_limit = fadd (monthly_limit (COMPANY_BUDGET s)) amount\<rparr>\<rparr>"
    by (simp add: emergency_budget_increase_def Let_def)
  have lim_b: "monthly_limit (COMPANY_BUDGET (snd (purchase_basic_item s item quantity))) =
     monthly_limit (COMPANY_BUDGET s)"
    by (simp add: purchase_basic_item_def purchase_basic_item_loop_find split: option.split)
  have lim_e: "monthly_limit (COMPANY_BUDGET (snd (purchase_expensive_item s item justification))) =
     monthly_limit (COMPANY_BUDGET s)"
    by (simp add: purchase_expensive_item_def purchase_expensive_item_loop_find split: option.split)
  have lim_l: "monthly_limit (COMPANY_BUDGET (snd (purchase_luxury_item s item p vendor justification))) =
     monthly_limit (COMPANY_BUDGET s)"
    by (simp add: purchase_luxury_item_def Let_def)
  have rem_b: "remaining (COMPANY_BUDGET (snd (purchase_basic_item s item quantity))) =
     (case get_item (INVENTORY s) item of
        None \<Rightarrow> ?r
      | Some (key, info) \<Rightarrow>
          (case int_to_double quantity of
             None \<Rightarrow> ?r
           | Some q \<Rightarrow>
               if fle (fmul q (price info)) ?r then fsub ?r (fmul q (price info)) else ?r))"
    by (simp add: purchase_basic_item_def get_item_def purchase_basic_item_loop_find
        split: option.split)
  have rem_e: "remaining (COMPANY_BUDGET (snd (purchase_expensive_item s item justification))) =
     (case get_item (INVENTORY s) item of
        None \<Rightarrow> ?r
      | Some (key, info) \<Rightarrow>
          if fle (price info) (Finite 200) then ?r
          else if fle (price info) ?r then fsub ?r (price info) else ?r)"
    by (simp add: purchase_expensive_item_def get_item_def purchase_expensive_item_loop_find
        split: option.split)
  have rem_l: "remaining (COMPANY_BUDGET (snd (purchase_luxury_item s item p vendor justification))) =
     (if fle p ?r then fsub ?r p else ?r)"
    by (simp add: purchase_luxury_item_def Let_def)
  have same: "\<not> flt ?r ?r" by (cases ?r) simp_all
  have rise_b: "\<not> flt ?r (remaining (COMPANY_BUDGET (snd (purchase_basic_item s item quantity))))"
    if rep: "representable ?r" and pr: "prices_nonneg (INVENTORY s)" and q0: "0 \<le> quantity"
  proof (cases "get_item (INVENTORY s) item")
    case None
    with rem_b same show ?thesis by simp
  next
    case (Some e)
    obtain key info where e: "e = (key, info)" by (cases e)
    with Some have g: "get_item (INVENTORY s) item = Some (key, info)" by simp
    from g pr have p0: "fle (Finite 0) (price info)" by (rule get_item_price_nonneg)
    show ?thesis
    proof (cases "int_to_double quantity")
      case None
      with rem_b g same show ?thesis by simp
    next
      case (Some q)
      from Some q0 have "fle (Finite 0) q" by (rule int_to_double_nonneg)
      from fmul_nonneg[OF this p0] have c0: "\<not> flt (fmul q (price info)) (Finite 0)" .
      show ?thesis
      proof (cases "fle (fmul q (price info)) ?r")
        case True
        from fsub_no_rise[OF rep True c0] rem_b g Some True show ?thesis by simp
      next
        case False
        with rem_b g Some same show ?thesis by simp
      qed
    qed
  qed
  have rise_e: "\<not> flt ?r (remaining (COMPANY_BUDGET (snd (purchase_expensive_item s item justification))))"
    if rep: "representable ?r" and pr: "prices_nonneg (INVENTORY s)"
  proof (cases "get_item (INVENTORY s) item")
    case None
    with rem_e same show ?thesis by simp
  next
    case (Some e)
    obtain key info where e: "e = (key, info)" by (cases e)
    with Some have g: "get_item (INVENTORY s) item = Some (key, info)" by simp
    from g pr have "fle (Finite 0) (price info)" by (rule get_item_price_nonneg)
    then have c0: "\<not> flt (price info) (Finite 0)" by (rule fle_not_flt)
    show ?thesis
    proof (cases "\<not> fle (price info) (Finite 200) \<and> fle (price info) ?r")
      case True
      then have "fle (price info) ?r" by simp
      from fsub_no_rise[OF rep this c0] rem_e g True show ?thesis by simp
    next
      case False
      with rem_e g same show ?thesis by auto
    qed
  qed
  have rise_l: "\<not> flt ?r (remaining (COMPANY_BUDGET (snd (purchase_luxury_item s item p vendor justification))))"
    if rep: "representable ?r" and p0: "\<not> flt p (Finite 0)"
  proof (cases "fle p ?r")
    case True
    from fsub_no_rise[OF rep True p0] rem_l True show ?thesis by simp
  next
    case False
    with rem_l same show ?thesis by simp
  qed
  from inc lim_b lim_e lim_l rem_b rem_e rem_l rise_b rise_e rise_l show ?thesis
    by blast
qed

text \<open>
  An increase by 250, four pens, pens through the expensive tool (redirected) and a
  luxury item at 75 on the seeded ledger.
\<close>

theorem budget_frame_witness:
  "representable (remaining (COMPANY_BUDGET seeded)) \<and> prices_nonneg (INVENTORY seeded) \<and>
   COMPANY_BUDGET (snd (emergency_budget_increase seeded (Finite 250) ''launch'')) =
     \<lparr>remaining = Finite 5250, monthly_limit = Finite 5250\<rparr> \<and>
   remaining (COMPANY_BUDGET (snd (purchase_basic_item seeded ''pens'' 4))) = Finite 4966 \<and>
   monthly_limit (COMPANY_BUDGET (snd (purchase_basic_item seeded ''pens'' 4))) = Finite 5000 \<and>
   remaining (COMPANY_BUDGET (snd (purchase_expensive_item seeded ''pens'' ''gift''))) =
     Finite 5000 \<and>
   remaining (COMPANY_BUDGET (snd (purchase_luxury_item seeded ''pens'' (Finite 75) ''acme''
     ''gift''))) = Finite 4925"
proof -
  have g: "get_item (INVENTORY seeded) ''pens'' = Some (''pens'', \<lparr>stock = 200, price = rnd 8.50\<rparr>)"
    by (simp add: get_item_def item_matches_def seeded_def INVENTORY_seed_def normalised)
  have q: "int_to_double 4 = Some (Finite 4)" by (simp add: int_to_double_small)
  from budget_frame[where s = seeded and amount = "Finite 250" and reason = "''launch''"
      and item = "''pens''" and quantity = 4 and p = "Finite 75" and vendor = "''acme''"
      and justification = "''gift''"]
    g q seeded_prices_nonneg seeded_budget
  show ?thesis by (simp add: roundings)
qed

text \<open>
  The claim as stated allows a purchase only a negative delta. Minus one coffee raises
  the remaining budget from 5000 to the float that prints as 5015.99.
\<close>

theorem purchase_credit_counterexample:
  "remaining (COMPANY_BUDGET (snd (purchase_basic_item seeded ''coffee'' (- 1)))) =
     Finite (2757569664904069 / 549755813888) \<and>
   remaining (COMPANY_BUDGET seeded) = Finite 5000 \<and>
   flt (Finite 5000) (Finite (2757569664904069 / 549755813888))"
  by (simp add: ledger_eval)

subsection \<open>The remaining budget stays within the monthly limit\<close>

text \<open>
  Claim C8, as the code has it. Along every sequence of tool calls from the seeded
  ledger in which no purchase has a negative quantity or a negative price, the remaining
  budget never exceeds the monthly limit after a call: it is at most the limit, or one
  of the two is NaN. Emergency increases of either sign keep this, since they add the
  same amount to both and rounding is monotone.
\<close>

theorem remaining_within_limit:
  assumes "list_all purchase_nonneg cs"
  shows "fle (remaining (COMPANY_BUDGET (run seeded (take n cs))))
             (monthly_limit (COMPANY_BUDGET (run seeded (take n cs)))) \<or>
         remaining (COMPANY_BUDGET (run seeded (take n cs))) = NaN \<or>
         monthly_limit (COMPANY_BUDGET (run seeded (take n cs))) = NaN"
proof -
  have "\<not> flt (monthly_limit (COMPANY_BUDGET seeded)) (remaining (COMPANY_BUDGET seeded))"
    by (simp add: seeded_budget)
  moreover have "representable (monthly_limit (COMPANY_BUDGET seeded))"
    by (simp add: seeded_budget rnd_5000)
  moreover note seeded_prices_nonneg
  moreover from assms have "list_all purchase_nonneg (take n cs)"
    by (rule list_all_take)
  ultimately have "\<not> flt (monthly_limit (COMPANY_BUDGET (run seeded (take n cs))))
      (remaining (COMPANY_BUDGET (run seeded (take n cs))))"
    by (rule within_limit_run)
  then show ?thesis by (simp add: not_flt_iff)
qed

text \<open>
  A run with a read, a purchase, a negative emergency increase and a luxury purchase.
\<close>

theorem remaining_within_limit_witness:
  "list_all purchase_nonneg
     [Get_Budget, Purchase_Basic_Item ''pens'' 3,
      Emergency_Budget_Increase (Finite (- 50)) ''cut'',
      Purchase_Luxury_Item ''aquarium'' (Finite 900) ''acme'' ''calm''] \<and>
   COMPANY_BUDGET (run seeded (take 4
     [Get_Budget, Purchase_Basic_Item ''pens'' 3,
      Emergency_Budget_Increase (Finite (- 50)) ''cut'',
      Purchase_Luxury_Item ''aquarium'' (Finite 900) ''acme'' ''calm''])) =
     \<lparr>remaining = Finite (8049 / 2), monthly_limit = Finite 4950\<rparr> \<and>
   fle (Finite (8049 / 2)) (Finite 4950)"
proof -
  have h: "list_all purchase_nonneg
     [Get_Budget, Purchase_Basic_Item ''pens'' 3,
      Emergency_Budget_Increase (Finite (- 50)) ''cut'',
      Purchase_Luxury_Item ''aquarium'' (Finite 900) ''acme'' ''calm'']"
    by simp
  have v: "COMPANY_BUDGET (run seeded
     [Get_Budget, Purchase_Basic_Item ''pens'' 3,
      Emergency_Budget_Increase (Finite (- 50)) ''cut'',
      Purchase_Luxury_Item ''aquarium'' (Finite 900) ''acme'' ''calm'']) =
     \<lparr>remaining = Finite (8049 / 2), monthly_limit = Finite 4950\<rparr>"
    by (simp add: ledger_eval)
  from remaining_within_limit[OF h, of 4] h v show ?thesis by simp
qed

text \<open>
  The claim as stated fails twice. Minus four staplers credit the remaining budget to the
  float that prints as 5099.96, above the monthly limit of 5000. Two emergency increases
  by \<open>2 ^ 1023\<close> make both amounts infinite, and a purchase of \<open>2 ^ 1023\<close> paper clips
  then leaves a remaining budget of NaN, which is not at most the limit.
\<close>

theorem remaining_above_limit_counterexample:
  "COMPANY_BUDGET (run seeded [Purchase_Basic_Item ''staplers'' (- 4)]) =
     \<lparr>remaining = Finite (5607465321192489 / 1099511627776), monthly_limit = Finite 5000\<rparr> \<and>
   flt (Finite 5000) (Finite (5607465321192489 / 1099511627776)) \<and>
   COMPANY_BUDGET (run seeded
     [Emergency_Budget_Increase (Finite (2 ^ 1023)) ''merger'',
      Emergency_Budget_Increase (Finite (2 ^ 1023)) ''merger'',
      Purchase_Basic_Item ''paper clips'' (2 ^ 1023)]) =
     \<lparr>remaining = NaN, monthly_limit = PInf\<rparr>"
proof -
  have a: "COMPANY_BUDGET (run seeded [Purchase_Basic_Item ''staplers'' (- 4)]) =
     \<lparr>remaining = Finite (5607465321192489 / 1099511627776), monthly_limit = Finite 5000\<rparr>"
    by (simp add: ledger_eval)
  have b: "COMPANY_BUDGET (run seeded
     [Emergency_Budget_Increase (Finite (2 ^ 1023)) ''merger'',
      Emergency_Budget_Increase (Finite (2 ^ 1023)) ''merger'',
      Purchase_Basic_Item ''paper clips'' (2 ^ 1023)]) =
     \<lparr>remaining = NaN, monthly_limit = PInf\<rparr>"
    by (simp add: ledger_eval int_to_double_def rnd_PInf_I float_overflow_def)
  show ?thesis using a b by simp
qed

end
